theory Spec2Isabelle
  imports Complex_Main
begin

section \<open>The zlock server of zprocess (locking/server.py)\<close>

text \<open>
  A shallow embedding of \<^verbatim>\<open>src/zprocess/locking/server.py\<close>: the reentrant
  readers-writer \<^verbatim>\<open>Lock\<close>, the \<^verbatim>\<open>Task\<close>/\<^verbatim>\<open>TaskQueue\<close> timers, the
  \<^verbatim>\<open>LockRequest\<close> state machine and the command handlers of \<^verbatim>\<open>ZMQLockServer\<close>.

  Conventions of the embedding.
  \<^item> Python \<^verbatim>\<open>bytes\<close> are \<open>string\<close>.
  \<^item> Every exception the code can raise is a value of \<open>exn\<close>; a method returns its
    result (or the exception) together with the object as the method left it, because
    a Python exception does not undo the assignments made before it.
  \<^item> A Python \<^verbatim>\<open>set\<close> is a HOL set. \<^verbatim>\<open>set.pop()\<close> removes an arbitrary member and
    iteration visits the members in an arbitrary order; both choices are oracles passed
    to the functions that need them.
  \<^item> Python floats are \<open>pyfloat\<close>: a finite float is the real number it denotes, the
    three special values are kept with their IEEE comparison and addition rules, and
    the sum of two finite floats is the exact sum rounded to a float. The rounding is
    not computed here; it is a parameter, of which the theorems assume at most that it
    is monotone.
\<close>

type_synonym bytes = string

datatype exn =
    AlreadyWaiting | InvalidReentry | NotHeld
  | RuntimeError | ValueError | KeyError | IndexError | TypeError | AttributeError
  | AssertionError

subsection \<open>Floats\<close>

datatype pyfloat = Fin real | PInf | NInf | NaN

text \<open>
  Float addition \<^verbatim>\<open>a + b\<close>. The sum of two finite floats is \<open>rnd\<close> of the exact
  sum: the float nearest to it, or an infinity when it is out of range. So
  \<^verbatim>\<open>1.0 + 1e16\<close> is \<^verbatim>\<open>1e16\<close> and \<^verbatim>\<open>100.0 + -1e-20\<close> is \<^verbatim>\<open>100.0\<close>.
\<close>

fun fadd :: "(real \<Rightarrow> pyfloat) \<Rightarrow> pyfloat \<Rightarrow> pyfloat \<Rightarrow> pyfloat" where
  "fadd rnd NaN _ = NaN"
| "fadd rnd _ NaN = NaN"
| "fadd rnd (Fin a) (Fin b) = rnd (a + b)"
| "fadd rnd PInf NInf = NaN"
| "fadd rnd NInf PInf = NaN"
| "fadd rnd PInf _ = PInf"
| "fadd rnd _ PInf = PInf"
| "fadd rnd NInf _ = NInf"
| "fadd rnd _ NInf = NInf"

text \<open>Float comparison \<^verbatim>\<open>a < b\<close>: false as soon as one side is NaN.\<close>

fun flt :: "pyfloat \<Rightarrow> pyfloat \<Rightarrow> bool" where
  "flt NaN _ = False"
| "flt _ NaN = False"
| "flt (Fin a) (Fin b) = (a < b)"
| "flt NInf NInf = False"
| "flt NInf _ = True"
| "flt PInf _ = False"
| "flt (Fin a) PInf = True"
| "flt (Fin a) NInf = False"

text \<open>\<^verbatim>\<open>a > b\<close> on floats is \<^verbatim>\<open>b < a\<close>.\<close>

definition fgt :: "pyfloat \<Rightarrow> pyfloat \<Rightarrow> bool" where
  "fgt a b = flt b a"

text \<open>\<^verbatim>\<open>a <= b\<close> on floats: false with a NaN, otherwise \<^verbatim>\<open>not b < a\<close>.\<close>

fun fle :: "pyfloat \<Rightarrow> pyfloat \<Rightarrow> bool" where
  "fle NaN _ = False"
| "fle _ NaN = False"
| "fle a b = (\<not> flt b a)"

text \<open>
  What the theorems on lease times assume of the rounding: a greater exact sum never
  rounds to a smaller float (and no sum rounds to NaN). Rounding to nearest has this
  property.
\<close>

definition monotone_rounding :: "(real \<Rightarrow> pyfloat) \<Rightarrow> bool" where
  "monotone_rounding rnd = (\<forall>x y. x \<le> y \<longrightarrow> fle (rnd x) (rnd y))"

text \<open>Float equality \<^verbatim>\<open>a == b\<close>: NaN is equal to nothing, itself included.\<close>

fun feq :: "pyfloat \<Rightarrow> pyfloat \<Rightarrow> bool" where
  "feq NaN _ = False"
| "feq _ NaN = False"
| "feq a b = (a = b)"

subsection \<open>Lock\<close>

text \<open>
  \<^verbatim>\<open>class Lock\<close>. \<open>readers\<close> is the \<^verbatim>\<open>defaultdict(int)\<close> of reentrancy levels,
  \<open>writer\<close> is \<^verbatim>\<open>None\<close> or a client id. The field \<^verbatim>\<open>key\<close> is \<open>lock_key\<close> here
  (\<^verbatim>\<open>LockRequest\<close> has a field of the same name); the back reference \<^verbatim>\<open>server\<close>
  is used by \<^verbatim>\<open>_check_cleanup\<close> only, see \<open>store_lock\<close> below.
\<close>

record Lock =
  lock_key :: bytes
  waiting_readers :: "bytes set"
  waiting_writers :: "bytes set"
  readers :: "bytes \<rightharpoonup> int"
  writer :: "bytes option"
  writer_reentrancy_level :: int
  invalid :: bool

definition new_Lock :: "bytes \<Rightarrow> Lock" where
  "new_Lock k = \<lparr> lock_key = k, waiting_readers = {}, waiting_writers = {},
     readers = Map.empty, writer = None, writer_reentrancy_level = 0, invalid = False \<rparr>"

text \<open>Reading \<^verbatim>\<open>d[k]\<close> of a \<^verbatim>\<open>defaultdict(int)\<close>: a missing key reads as 0.\<close>

definition dd_get :: "(bytes \<rightharpoonup> int) \<Rightarrow> bytes \<Rightarrow> int" where
  "dd_get d k = (case d k of None \<Rightarrow> 0 | Some n \<Rightarrow> n)"

text \<open>
  \<^verbatim>\<open>Lock._check_cleanup\<close>: when there are no readers, no waiters and no writer the lock
  marks itself invalid and deletes itself from \<^verbatim>\<open>server.active_locks\<close>. On the lock
  object this sets \<open>invalid\<close>; the deletion from the table is done by \<open>store_lock\<close>,
  which removes the entry exactly when this flag has been set.
\<close>

definition Lock_check_cleanup :: "Lock \<Rightarrow> Lock" where
  "Lock_check_cleanup l =
     (if readers l = Map.empty \<and> waiting_readers l = {} \<and> waiting_writers l = {}
      then (if writer l = None then l\<lparr>invalid := True\<rparr> else l)
      else l)"

text \<open>The body of the \<^verbatim>\<open>try\<close> block of \<^verbatim>\<open>Lock.acquire\<close>.\<close>

definition Lock_acquire_body :: "bytes \<Rightarrow> bool \<Rightarrow> Lock \<Rightarrow> (exn + bool) \<times> Lock" where
  "Lock_acquire_body client_id read_only l =
     (if client_id \<in> waiting_readers l \<or> client_id \<in> waiting_writers l
      then (Inl AlreadyWaiting, l)
      else if read_only then
        (if \<not> (writer l = None)
         then (Inr False, l\<lparr>waiting_readers := insert client_id (waiting_readers l)\<rparr>)
         else if \<not> (waiting_writers l = {}) then
           (if client_id \<in> dom (readers l)
            then (Inr True, l\<lparr>readers := (readers l)(client_id \<mapsto> dd_get (readers l) client_id + 1)\<rparr>)
            else (Inr False, l\<lparr>waiting_readers := insert client_id (waiting_readers l)\<rparr>))
         else (Inr True, l\<lparr>readers := (readers l)(client_id \<mapsto> dd_get (readers l) client_id + 1)\<rparr>))
      else
        (if client_id \<in> dom (readers l)
         then (Inl InvalidReentry, l)
         else if (writer l = None \<or> writer l = Some client_id) \<and> readers l = Map.empty
         then (Inr True, l\<lparr>writer := Some client_id,
                 writer_reentrancy_level := writer_reentrancy_level l + 1\<rparr>)
         else (Inr False, l\<lparr>waiting_writers := insert client_id (waiting_writers l)\<rparr>)))"

text \<open>
  \<^verbatim>\<open>Lock.acquire\<close>: the validity check is outside the \<^verbatim>\<open>try\<close>; the \<^verbatim>\<open>finally\<close>
  clause runs \<^verbatim>\<open>_check_cleanup\<close> after a return and after a raise alike.
\<close>

definition Lock_acquire :: "bytes \<Rightarrow> bool \<Rightarrow> Lock \<Rightarrow> (exn + bool) \<times> Lock" where
  "Lock_acquire client_id read_only l =
     (if invalid l then (Inl RuntimeError, l)
      else (case Lock_acquire_body client_id read_only l of
              (r, l') \<Rightarrow> (r, Lock_check_cleanup l')))"

text \<open>
  The two places of \<^verbatim>\<open>Lock.release\<close> that hand the lock to a waiting writer:
  \<^verbatim>\<open>self.writer = self.waiting_writers.pop(); self.writer_reentrancy_level = 1;
  return {self.writer}\<close>. \<open>pop\<close> is the oracle for the member \<^verbatim>\<open>set.pop()\<close> removes.
\<close>

definition install_waiting_writer :: "(bytes set \<Rightarrow> bytes) \<Rightarrow> Lock \<Rightarrow> (exn + bytes set) \<times> Lock" where
  "install_waiting_writer pop l =
     (let w = pop (waiting_writers l) in
        (Inr {w}, l\<lparr>waiting_writers := waiting_writers l - {w},
                    writer := Some w, writer_reentrancy_level := 1\<rparr>))"

text \<open>
  The loop \<^verbatim>\<open>for reader_client_id in self.waiting_readers:
  self.readers[reader_client_id] += 1\<close>: every waiting reader's level goes up by one
  (from 0 when it had no entry), whatever the order of the visit.
\<close>

definition grant_waiting_readers :: "Lock \<Rightarrow> (bytes \<rightharpoonup> int)" where
  "grant_waiting_readers l =
     (\<lambda>c. if c \<in> waiting_readers l then Some (dd_get (readers l) c + 1) else readers l c)"

text \<open>The body of the \<^verbatim>\<open>try\<close> block of \<^verbatim>\<open>Lock.release\<close>.\<close>

definition Lock_release_body ::
  "(bytes set \<Rightarrow> bytes) \<Rightarrow> bytes \<Rightarrow> bool \<Rightarrow> Lock \<Rightarrow> (exn + bytes set) \<times> Lock" where
  "Lock_release_body pop client_id fully l =
     (if client_id \<in> dom (readers l) then
        (let n = dd_get (readers l) client_id - 1;
             rs = (if n = 0 \<or> fully then (readers l)(client_id := None)
                   else (readers l)(client_id \<mapsto> n));
             l1 = l\<lparr>readers := rs\<rparr>
         in if \<not> (waiting_writers l1 = {}) \<and> rs = Map.empty
            then install_waiting_writer pop l1
            else (Inr {}, l1))
      else if writer l = Some client_id then
        (let n = writer_reentrancy_level l - 1;
             l1 = (if n = 0 \<or> fully
                   then l\<lparr>writer := None, writer_reentrancy_level := 0\<rparr>
                   else l\<lparr>writer_reentrancy_level := n\<rparr>)
         in if \<not> (waiting_writers l1 = {})
            then install_waiting_writer pop l1
            else if \<not> (waiting_readers l1 = {})
            then (Inr (waiting_readers l1),
                  l1\<lparr>readers := grant_waiting_readers l1, waiting_readers := {}\<rparr>)
            else (Inr {}, l1))
      else (Inl NotHeld, l))"

definition Lock_release ::
  "(bytes set \<Rightarrow> bytes) \<Rightarrow> bytes \<Rightarrow> bool \<Rightarrow> Lock \<Rightarrow> (exn + bytes set) \<times> Lock" where
  "Lock_release pop client_id fully l =
     (if invalid l then (Inl RuntimeError, l)
      else (case Lock_release_body pop client_id fully l of
              (r, l') \<Rightarrow> (r, Lock_check_cleanup l')))"

text \<open>\<^verbatim>\<open>Lock.give_up\<close>.\<close>

definition Lock_give_up :: "bytes \<Rightarrow> Lock \<Rightarrow> (exn + unit) \<times> Lock" where
  "Lock_give_up client_id l =
     (if invalid l then (Inl RuntimeError, l)
      else (Inr (),
            Lock_check_cleanup
              (if client_id \<in> waiting_readers l
               then l\<lparr>waiting_readers := waiting_readers l - {client_id}\<rparr>
               else if client_id \<in> waiting_writers l
               then l\<lparr>waiting_writers := waiting_writers l - {client_id}\<rparr>
               else l)))"

subsection \<open>Task and TaskQueue\<close>

text \<open>
  A \<^verbatim>\<open>Task\<close> wraps a bound method of a \<^verbatim>\<open>LockRequest\<close> object. Request objects
  live in a heap (\<open>request_heap\<close> below) and are named by their address, so the three
  callbacks the code ever schedules are: \<^verbatim>\<open>self.advise_retry\<close>, \<^verbatim>\<open>self.give_up\<close>
  (no arguments, so \<^verbatim>\<open>cleanup=True\<close>) and \<^verbatim>\<open>self.release\<close> with its keyword
  argument \<^verbatim>\<open>fully\<close>.
\<close>

datatype callback = Cb_advise_retry nat | Cb_give_up nat | Cb_release nat bool

text \<open>
  \<open>task_id\<close> is the identity of the Python object: \<^verbatim>\<open>Task\<close> defines no \<^verbatim>\<open>__eq__\<close>,
  so \<^verbatim>\<open>list.remove\<close> compares tasks by identity.
\<close>

record Task =
  task_id :: nat
  due_at :: pyfloat
  func :: callback
  called :: bool

text \<open>\<^verbatim>\<open>Task.__gt__\<close>: tasks due sooner are greater than tasks due later.\<close>

definition Task_gt :: "Task \<Rightarrow> Task \<Rightarrow> bool" where
  "Task_gt self other = flt (due_at self) (due_at other)"

text \<open>
  \<^verbatim>\<open>x < y\<close> on tasks: \<^verbatim>\<open>Task\<close> has no \<^verbatim>\<open>__lt__\<close>, so Python evaluates the
  reflected \<^verbatim>\<open>y.__gt__(x)\<close>.
\<close>

definition Task_lt :: "Task \<Rightarrow> Task \<Rightarrow> bool" where
  "Task_lt x y = Task_gt y x"

text \<open>
  \<^verbatim>\<open>bisect.bisect_right(a, x, lo, hi)\<close>, the search of \<^verbatim>\<open>bisect.insort\<close>:
  \<^verbatim>\<open>while lo < hi: mid = (lo + hi) // 2; if x < a[mid]: hi = mid; else: lo = mid + 1\<close>.
  It is called with \<open>hi = length a\<close>, so \<open>a ! mid\<close> is always in range.
\<close>

function bisect_right :: "Task list \<Rightarrow> Task \<Rightarrow> nat \<Rightarrow> nat \<Rightarrow> nat" where
  "bisect_right a x lo hi =
     (if lo < hi
      then (if Task_lt x (a ! ((lo + hi) div 2))
            then bisect_right a x lo ((lo + hi) div 2)
            else bisect_right a x ((lo + hi) div 2 + 1) hi)
      else lo)"
  by pat_completeness auto
termination
  by (relation "measure (\<lambda>(a, x, lo, hi). hi - lo)") auto

declare bisect_right.simps [simp del]

text \<open>\<^verbatim>\<open>TaskQueue.add\<close>: \<^verbatim>\<open>insort(self, task)\<close>, that is \<^verbatim>\<open>self.insert(lo, task)\<close>.\<close>

definition TaskQueue_add :: "Task list \<Rightarrow> Task \<Rightarrow> Task list" where
  "TaskQueue_add q task =
     (let lo = bisect_right q task 0 (length q) in take lo q @ task # drop lo q)"

text \<open>\<^verbatim>\<open>TaskQueue.next\<close>: \<^verbatim>\<open>self[-1]\<close>.\<close>

definition TaskQueue_next :: "Task list \<Rightarrow> exn + Task" where
  "TaskQueue_next q = (if q = [] then Inl IndexError else Inr (last q))"

text \<open>
  \<^verbatim>\<open>list.remove(x)\<close>: deletes the first item that is \<^verbatim>\<open>x\<close>, and raises
  \<^verbatim>\<open>ValueError\<close> when there is none.
\<close>

fun list_remove :: "Task list \<Rightarrow> Task \<Rightarrow> exn + Task list" where
  "list_remove [] task = Inl ValueError"
| "list_remove (x # xs) task =
     (if task_id x = task_id task then Inr xs
      else (case list_remove xs task of Inl e \<Rightarrow> Inl e | Inr ys \<Rightarrow> Inr (x # ys)))"

text \<open>\<^verbatim>\<open>TaskQueue.cancel\<close>: \<^verbatim>\<open>self.remove(task)\<close>.\<close>

definition TaskQueue_cancel :: "Task list \<Rightarrow> Task \<Rightarrow> exn + Task list" where
  "TaskQueue_cancel q task = list_remove q task"

subsection \<open>The server's state\<close>

datatype rs = INITIAL | PRESENT_WAITING | ABSENT_WAITING | ABSENT_HELD | HELD

text \<open>\<^verbatim>\<open>class LockRequest\<close>; \<^verbatim>\<open>None\<close> fields are options.\<close>

record LockRequest =
  key :: bytes
  client_id :: bytes
  routing_id :: "bytes option"
  timeout :: "pyfloat option"
  read_only :: "bool option"
  state :: rs
  advise_retry_task :: "Task option"
  give_up_task :: "Task option"
  timeout_task :: "Task option"

definition new_LockRequest :: "bytes \<Rightarrow> bytes \<Rightarrow> LockRequest" where
  "new_LockRequest k c = \<lparr> key = k, client_id = c, routing_id = None, timeout = None,
     read_only = None, state = INITIAL, advise_retry_task = None, give_up_task = None,
     timeout_task = None \<rparr>"

text \<open>
  \<^verbatim>\<open>class ZMQLockServer\<close>: the task queue, the two tables and the \<^verbatim>\<open>stopping\<close> flag.
  \<^verbatim>\<open>active_requests\<close> maps a slot to the address of its request object and
  \<open>request_heap\<close> holds the objects, because a task and a running method keep their
  \<^verbatim>\<open>self\<close> after \<^verbatim>\<open>_cleanup\<close> has deleted it from the table. \<open>next_request\<close> and
  \<open>next_task\<close> are the allocators of object identities, \<open>clock_reads\<close> counts the
  calls of \<^verbatim>\<open>monotonic()\<close>, and \<open>sent\<close> lists the replies handed to
  \<^verbatim>\<open>router.send_multipart\<close> as (routing id, message), oldest first.
\<close>

record ZMQLockServer =
  tasks :: "Task list"
  active_locks :: "bytes \<rightharpoonup> Lock"
  active_requests :: "bytes \<times> bytes \<rightharpoonup> nat"
  stopping :: bool
  request_heap :: "nat \<Rightarrow> LockRequest"
  next_request :: nat
  next_task :: nat
  clock_reads :: nat
  sent :: "(bytes \<times> bytes) list"

definition new_ZMQLockServer :: ZMQLockServer where
  "new_ZMQLockServer = \<lparr> tasks = [], active_locks = Map.empty, active_requests = Map.empty,
     stopping = False, request_heap = (\<lambda>a. new_LockRequest [] []), next_request = 0,
     next_task = 0, clock_reads = 0, sent = [] \<rparr>"

text \<open>
  What the code takes from outside: the successive readings of \<^verbatim>\<open>monotonic()\<close>, the
  member \<^verbatim>\<open>set.pop()\<close> removes, the order in which a \<^verbatim>\<open>for\<close> loop visits a set,
  Python's \<^verbatim>\<open>float()\<close> on bytes (\<open>None\<close> is its \<^verbatim>\<open>ValueError\<close>), and the rounding
  of a sum of floats.
\<close>

record env =
  monotonic_clock :: "nat \<Rightarrow> real"
  set_pop :: "bytes set \<Rightarrow> bytes"
  set_iter :: "bytes set \<Rightarrow> bytes list"
  py_float :: "bytes \<Rightarrow> pyfloat option"
  float_round :: "real \<Rightarrow> pyfloat"

definition MAX_RESPONSE_TIME :: pyfloat where "MAX_RESPONSE_TIME = Fin 1"
definition MAX_ABSENT_TIME :: pyfloat where "MAX_ABSENT_TIME = Fin 1"

definition ERR_NOT_HELD :: bytes where
  "ERR_NOT_HELD = ''error: lock not held''"
definition ERR_INVALID_REENTRY :: bytes where
  "ERR_INVALID_REENTRY = ''error: lock already held read-only, cannot re-enter as writer''"
definition ERR_CONCURRENT :: bytes where
  "ERR_CONCURRENT = ''error: multiple concurrent requests with same key and client_id''"
definition ERR_INVALID_COMMAND :: bytes where
  "ERR_INVALID_COMMAND = ''error: invalid command''"
definition ERR_WRONG_NUM_ARGS :: bytes where
  "ERR_WRONG_NUM_ARGS = ''error: wrong number of arguments''"
definition ERR_TIMEOUT_INVALID :: bytes where
  "ERR_TIMEOUT_INVALID = ''error: timeout not a valid number''"
definition ERR_READ_ONLY_WRONG :: bytes where
  "ERR_READ_ONLY_WRONG =
     ''error: argument 4 if present can only '' @ [CHR 0x27] @ ''read_only'' @ [CHR 0x27]"

text \<open>
  \<^verbatim>\<open>INVALID_NUMBERS = {float('nan'), float('inf'), float('-inf')}\<close> and the test
  \<^verbatim>\<open>timeout in INVALID_NUMBERS\<close>. Membership in a Python set holds for a member that
  is the same object or compares equal (\<^verbatim>\<open>==\<close>). The tested value is the fresh object
  \<^verbatim>\<open>float(timeout)\<close> has just made, never one of the three objects of the set, so the
  test is float equality with some member.
\<close>

definition INVALID_NUMBERS :: "pyfloat list" where
  "INVALID_NUMBERS = [NaN, PInf, NInf]"

definition in_INVALID_NUMBERS :: "pyfloat \<Rightarrow> bool" where
  "in_INVALID_NUMBERS x = list_ex (feq x) INVALID_NUMBERS"

text \<open>Exceptions cut a sequence of statements short.\<close>

definition and_then ::
  "(exn + 'a) \<times> ZMQLockServer \<Rightarrow> ('a \<Rightarrow> ZMQLockServer \<Rightarrow> (exn + 'b) \<times> ZMQLockServer)
     \<Rightarrow> (exn + 'b) \<times> ZMQLockServer" where
  "and_then m f = (case m of (Inl e, s) \<Rightarrow> (Inl e, s) | (Inr x, s) \<Rightarrow> f x s)"

text \<open>\<^verbatim>\<open>monotonic()\<close>: the next reading of the clock.\<close>

definition monotonic :: "env \<Rightarrow> ZMQLockServer \<Rightarrow> real \<times> ZMQLockServer" where
  "monotonic E s = (monotonic_clock E (clock_reads s), s\<lparr>clock_reads := Suc (clock_reads s)\<rparr>)"

text \<open>\<^verbatim>\<open>Task.__init__\<close>: \<^verbatim>\<open>self.due_at = monotonic() + due_in\<close>, not yet called.\<close>

definition new_Task :: "env \<Rightarrow> pyfloat \<Rightarrow> callback \<Rightarrow> ZMQLockServer \<Rightarrow> Task \<times> ZMQLockServer" where
  "new_Task E due_in f s =
     (case monotonic E s of (now, s1) \<Rightarrow>
        (\<lparr> task_id = next_task s1, due_at = fadd (float_round E) (Fin now) due_in,
           func = f, called = False \<rparr>,
         s1\<lparr>next_task := Suc (next_task s1)\<rparr>))"

text \<open>\<^verbatim>\<open>ZMQLockServer.send\<close>.\<close>

definition send :: "bytes \<Rightarrow> bytes \<Rightarrow> ZMQLockServer \<Rightarrow> ZMQLockServer" where
  "send rid message s = s\<lparr>sent := sent s @ [(rid, message)]\<rparr>"

text \<open>Assignment to fields of the request object at address \<open>a\<close>.\<close>

definition set_req :: "nat \<Rightarrow> (LockRequest \<Rightarrow> LockRequest) \<Rightarrow> ZMQLockServer \<Rightarrow> ZMQLockServer" where
  "set_req a f s = s\<lparr>request_heap := (request_heap s)(a := f (request_heap s a))\<rparr>"

definition set_state :: "nat \<Rightarrow> rs \<Rightarrow> ZMQLockServer \<Rightarrow> ZMQLockServer" where
  "set_state a st s = set_req a (\<lambda>r. r\<lparr>state := st\<rparr>) s"

text \<open>\<^verbatim>\<open>Lock.instance\<close>: the lock of the table, or a new one put into the table.\<close>

definition Lock_instance :: "bytes \<Rightarrow> ZMQLockServer \<Rightarrow> Lock \<times> ZMQLockServer" where
  "Lock_instance k s =
     (case active_locks s k of
        Some l \<Rightarrow> (l, s)
      | None \<Rightarrow> (new_Lock k, s\<lparr>active_locks := (active_locks s)(k \<mapsto> new_Lock k)\<rparr>))"

text \<open>
  The lock object is held in the table by value, so a method's assignments are written
  back after the call; a lock that \<^verbatim>\<open>_check_cleanup\<close> has marked invalid was deleted
  from the table by it (\<^verbatim>\<open>del self.server.active_locks[self.key]\<close>).
\<close>

definition store_lock :: "bytes \<Rightarrow> Lock \<Rightarrow> ZMQLockServer \<Rightarrow> ZMQLockServer" where
  "store_lock k l s =
     (if invalid l then s\<lparr>active_locks := (active_locks s)(k := None)\<rparr>
      else s\<lparr>active_locks := (active_locks s)(k \<mapsto> l)\<rparr>)"

text \<open>
  \<^verbatim>\<open>lock = Lock.instance(self.key, self.server)\<close> followed by one method call. A
  method called on a lock that is already invalid raises before it assigns anything.
\<close>

definition call_Lock_acquire ::
  "bytes \<Rightarrow> bytes \<Rightarrow> bool \<Rightarrow> ZMQLockServer \<Rightarrow> (exn + bool) \<times> ZMQLockServer" where
  "call_Lock_acquire k c ro s =
     (case Lock_instance k s of (l, s1) \<Rightarrow>
        (case Lock_acquire c ro l of (r, l') \<Rightarrow>
           (r, if invalid l then s1 else store_lock k l' s1)))"

definition call_Lock_release ::
  "env \<Rightarrow> bytes \<Rightarrow> bytes \<Rightarrow> bool \<Rightarrow> ZMQLockServer \<Rightarrow> (exn + bytes set) \<times> ZMQLockServer" where
  "call_Lock_release E k c fully s =
     (case Lock_instance k s of (l, s1) \<Rightarrow>
        (case Lock_release (set_pop E) c fully l of (r, l') \<Rightarrow>
           (r, if invalid l then s1 else store_lock k l' s1)))"

definition call_Lock_give_up ::
  "bytes \<Rightarrow> bytes \<Rightarrow> ZMQLockServer \<Rightarrow> (exn + unit) \<times> ZMQLockServer" where
  "call_Lock_give_up k c s =
     (case Lock_instance k s of (l, s1) \<Rightarrow>
        (case Lock_give_up c l of (r, l') \<Rightarrow>
           (r, if invalid l then s1 else store_lock k l' s1)))"

subsection \<open>LockRequest\<close>

text \<open>
  \<^verbatim>\<open>LockRequest.instance\<close>: the request object of the slot, or a new object in state
  \<open>INITIAL\<close> that is put into \<^verbatim>\<open>server.active_requests\<close>.
\<close>

definition LockRequest_instance :: "bytes \<Rightarrow> bytes \<Rightarrow> ZMQLockServer \<Rightarrow> nat \<times> ZMQLockServer" where
  "LockRequest_instance k c s =
     (case active_requests s (k, c) of
        Some a \<Rightarrow> (a, s)
      | None \<Rightarrow>
          (next_request s,
           s\<lparr>request_heap := (request_heap s)(next_request s := new_LockRequest k c),
             active_requests := (active_requests s)((k, c) \<mapsto> next_request s),
             next_request := Suc (next_request s)\<rparr>))"

text \<open>\<^verbatim>\<open>LockRequest._cleanup\<close>: \<^verbatim>\<open>del self.server.active_requests[self.key, self.client_id]\<close>.\<close>

definition LockRequest_cleanup :: "nat \<Rightarrow> ZMQLockServer \<Rightarrow> (exn + unit) \<times> ZMQLockServer" where
  "LockRequest_cleanup a s =
     (let slot = (key (request_heap s a), client_id (request_heap s a)) in
        if active_requests s slot = None then (Inl KeyError, s)
        else (Inr (), s\<lparr>active_requests := (active_requests s)(slot := None)\<rparr>))"

text \<open>
  The three \<^verbatim>\<open>schedule_*\<close> methods: make the task, keep it in the request's field, add it
  to the queue.
\<close>

definition schedule_advise_retry :: "env \<Rightarrow> nat \<Rightarrow> ZMQLockServer \<Rightarrow> ZMQLockServer" where
  "schedule_advise_retry E a s =
     (case new_Task E MAX_RESPONSE_TIME (Cb_advise_retry a) s of (t, s1) \<Rightarrow>
        (set_req a (\<lambda>r. r\<lparr>advise_retry_task := Some t\<rparr>) s1)
          \<lparr>tasks := TaskQueue_add (tasks s1) t\<rparr>)"

definition schedule_give_up :: "env \<Rightarrow> nat \<Rightarrow> ZMQLockServer \<Rightarrow> ZMQLockServer" where
  "schedule_give_up E a s =
     (case new_Task E MAX_ABSENT_TIME (Cb_give_up a) s of (t, s1) \<Rightarrow>
        (set_req a (\<lambda>r. r\<lparr>give_up_task := Some t\<rparr>) s1)
          \<lparr>tasks := TaskQueue_add (tasks s1) t\<rparr>)"

definition schedule_timeout_release :: "env \<Rightarrow> nat \<Rightarrow> pyfloat \<Rightarrow> ZMQLockServer \<Rightarrow> ZMQLockServer" where
  "schedule_timeout_release E a t s =
     (case new_Task E t (Cb_release a True) s of (tk, s1) \<Rightarrow>
        (set_req a (\<lambda>r. r\<lparr>timeout_task := Some tk\<rparr>) s1)
          \<lparr>tasks := TaskQueue_add (tasks s1) tk\<rparr>)"

text \<open>
  The three \<^verbatim>\<open>cancel_*\<close> methods: \<^verbatim>\<open>self.server.tasks.cancel(task)\<close> on the task of
  the field. A field that is still \<^verbatim>\<open>None\<close> is not in the list, so \<^verbatim>\<open>list.remove\<close>
  raises \<^verbatim>\<open>ValueError\<close> for it too.
\<close>

definition cancel_task :: "Task option \<Rightarrow> ZMQLockServer \<Rightarrow> (exn + unit) \<times> ZMQLockServer" where
  "cancel_task h s =
     (case h of
        None \<Rightarrow> (Inl ValueError, s)
      | Some t \<Rightarrow>
          (case TaskQueue_cancel (tasks s) t of
             Inl e \<Rightarrow> (Inl e, s)
           | Inr q \<Rightarrow> (Inr (), s\<lparr>tasks := q\<rparr>)))"

definition cancel_advise_retry :: "nat \<Rightarrow> ZMQLockServer \<Rightarrow> (exn + unit) \<times> ZMQLockServer" where
  "cancel_advise_retry a s = cancel_task (advise_retry_task (request_heap s a)) s"

definition cancel_give_up :: "nat \<Rightarrow> ZMQLockServer \<Rightarrow> (exn + unit) \<times> ZMQLockServer" where
  "cancel_give_up a s = cancel_task (give_up_task (request_heap s a)) s"

definition cancel_timeout_release :: "nat \<Rightarrow> ZMQLockServer \<Rightarrow> (exn + unit) \<times> ZMQLockServer" where
  "cancel_timeout_release a s = cancel_task (timeout_task (request_heap s a)) s"

text \<open>
  \<^verbatim>\<open>LockRequest.on_triggered_acquisition\<close>. Sending to a routing id that is still
  \<^verbatim>\<open>None\<close>, and adding \<^verbatim>\<open>None\<close> to the clock, are Python's \<^verbatim>\<open>TypeError\<close>.
\<close>

definition on_triggered_acquisition :: "env \<Rightarrow> nat \<Rightarrow> ZMQLockServer \<Rightarrow> (exn + unit) \<times> ZMQLockServer" where
  "on_triggered_acquisition E a s =
     (let r = request_heap s a in
      if state r = PRESENT_WAITING then
        (case routing_id r of
           None \<Rightarrow> (Inl TypeError, s)
         | Some rid \<Rightarrow>
             (case timeout r of
                None \<Rightarrow> (Inl TypeError, snd (monotonic E (send rid ''ok'' s)))
              | Some t \<Rightarrow>
                  and_then (cancel_advise_retry a (schedule_timeout_release E a t (send rid ''ok'' s)))
                    (\<lambda>u s1. (Inr (), set_state a HELD s1))))
      else if state r = ABSENT_WAITING then
        and_then (cancel_give_up a s)
          (\<lambda>u s1. (Inr (), set_state a ABSENT_HELD (schedule_timeout_release E a MAX_ABSENT_TIME s1)))
      else (Inl ValueError, s))"

text \<open>\<^verbatim>\<open>LockRequest._initial_acquisition\<close>.\<close>

definition initial_acquisition ::
  "env \<Rightarrow> nat \<Rightarrow> bytes \<Rightarrow> pyfloat \<Rightarrow> bool \<Rightarrow> ZMQLockServer \<Rightarrow> (exn + unit) \<times> ZMQLockServer" where
  "initial_acquisition E a rid t ro s =
     (let s1 = set_req a (\<lambda>r. r\<lparr>routing_id := Some rid, timeout := Some t, read_only := Some ro\<rparr>) s;
          r = request_heap s1 a
      in and_then (call_Lock_acquire (key r) (client_id r) ro s1)
           (\<lambda>got s2.
              if got
              then (Inr (), set_state a HELD (schedule_timeout_release E a t (send rid ''ok'' s2)))
              else (Inr (), set_state a PRESENT_WAITING (schedule_advise_retry E a s2))))"

text \<open>
  The loop of \<^verbatim>\<open>LockRequest.release\<close> over the clients that acquired the lock:
  \<^verbatim>\<open>other_request = LockRequest.instance(self.key, client_id, self.server);
  other_request.on_triggered_acquisition()\<close>.
\<close>

fun trigger_acquirers :: "env \<Rightarrow> bytes \<Rightarrow> bytes list \<Rightarrow> ZMQLockServer \<Rightarrow> (exn + unit) \<times> ZMQLockServer" where
  "trigger_acquirers E k [] s = (Inr (), s)"
| "trigger_acquirers E k (c # cs) s =
     (case LockRequest_instance k c s of (b, s1) \<Rightarrow>
        (case on_triggered_acquisition E b s1 of
           (Inl e, s2) \<Rightarrow> (Inl e, s2)
         | (Inr u, s2) \<Rightarrow> trigger_acquirers E k cs s2))"

text \<open>\<^verbatim>\<open>LockRequest.release\<close>.\<close>

definition LockRequest_release :: "env \<Rightarrow> nat \<Rightarrow> bool \<Rightarrow> ZMQLockServer \<Rightarrow> (exn + unit) \<times> ZMQLockServer" where
  "LockRequest_release E a fully s =
     (let r = request_heap s a in
      and_then (call_Lock_release E (key r) (client_id r) fully s)
        (\<lambda>acquirers s1.
           and_then (trigger_acquirers E (key r) (set_iter E acquirers) s1)
             (\<lambda>u s2. LockRequest_cleanup a s2)))"

text \<open>\<^verbatim>\<open>LockRequest.give_up\<close>.\<close>

definition LockRequest_give_up :: "nat \<Rightarrow> bool \<Rightarrow> ZMQLockServer \<Rightarrow> (exn + unit) \<times> ZMQLockServer" where
  "LockRequest_give_up a cleanup s =
     (let r = request_heap s a in
      and_then (call_Lock_give_up (key r) (client_id r) s)
        (\<lambda>u s1. if cleanup then LockRequest_cleanup a s1 else (Inr (), s1)))"

text \<open>\<^verbatim>\<open>LockRequest.advise_retry\<close>.\<close>

definition advise_retry :: "env \<Rightarrow> nat \<Rightarrow> ZMQLockServer \<Rightarrow> (exn + unit) \<times> ZMQLockServer" where
  "advise_retry E a s =
     (case routing_id (request_heap s a) of
        None \<Rightarrow> (Inl TypeError, s)
      | Some rid \<Rightarrow> (Inr (), set_state a ABSENT_WAITING (schedule_give_up E a (send rid ''retry'' s))))"

text \<open>
  The branch of \<^verbatim>\<open>LockRequest.acquire_request\<close> for state \<open>HELD\<close>, a reentry. The
  \<^verbatim>\<open>assert\<close> raises \<^verbatim>\<open>AssertionError\<close> when \<^verbatim>\<open>lock.acquire\<close> returns \<^verbatim>\<open>False\<close>;
  \<^verbatim>\<open>except InvalidReentry\<close> catches that exception only. The new deadline is compared
  with one reading of the clock, the new task takes the next one.
\<close>

definition reentry_acquisition ::
  "env \<Rightarrow> nat \<Rightarrow> bytes \<Rightarrow> pyfloat \<Rightarrow> bool \<Rightarrow> ZMQLockServer \<Rightarrow> (exn + unit) \<times> ZMQLockServer" where
  "reentry_acquisition E a rid t ro s =
     (let r = request_heap s a in
      case call_Lock_acquire (key r) (client_id r) ro s of
        (Inl e, s1) \<Rightarrow>
          if e = InvalidReentry then (Inr (), send rid ERR_INVALID_REENTRY s1) else (Inl e, s1)
      | (Inr got, s1) \<Rightarrow>
          if got then
            (case monotonic E (send rid ''ok'' s1) of (now, s2) \<Rightarrow>
               (case timeout_task (request_heap s2 a) of
                  None \<Rightarrow> (Inl AttributeError, s2)
                | Some lease \<Rightarrow>
                    if fgt (fadd (float_round E) (Fin now) t) (due_at lease)
                    then and_then (cancel_timeout_release a s2)
                           (\<lambda>u s3. (Inr (), schedule_timeout_release E a t s3))
                    else (Inr (), s2)))
          else (Inl AssertionError, s1))"

text \<open>\<^verbatim>\<open>LockRequest.acquire_request\<close>.\<close>

definition LockRequest_acquire_request ::
  "env \<Rightarrow> nat \<Rightarrow> bytes \<Rightarrow> pyfloat \<Rightarrow> bool \<Rightarrow> ZMQLockServer \<Rightarrow> (exn + unit) \<times> ZMQLockServer" where
  "LockRequest_acquire_request E a rid t ro s =
     (case state (request_heap s a) of
        INITIAL \<Rightarrow> initial_acquisition E a rid t ro s
      | HELD \<Rightarrow> reentry_acquisition E a rid t ro s
      | ABSENT_HELD \<Rightarrow>
          and_then (cancel_timeout_release a (send rid ''ok'' s))
            (\<lambda>u s1. (Inr (), set_state a HELD (schedule_timeout_release E a t s1)))
      | ABSENT_WAITING \<Rightarrow>
          and_then (cancel_give_up a s)
            (\<lambda>u s1.
               if Some ro = read_only (request_heap s1 a)
               then (Inr (), set_state a PRESENT_WAITING
                       (schedule_advise_retry E a
                          (set_req a (\<lambda>r. r\<lparr>timeout := Some t, routing_id := Some rid\<rparr>) s1)))
               else and_then (LockRequest_give_up a False s1)
                      (\<lambda>u s2. initial_acquisition E a rid t ro s2))
      | PRESENT_WAITING \<Rightarrow> (Inr (), send rid ERR_CONCURRENT s))"

text \<open>\<^verbatim>\<open>LockRequest.release_request\<close>.\<close>

definition LockRequest_release_request ::
  "env \<Rightarrow> nat \<Rightarrow> bytes \<Rightarrow> ZMQLockServer \<Rightarrow> (exn + unit) \<times> ZMQLockServer" where
  "LockRequest_release_request E a rid s =
     (case state (request_heap s a) of
        HELD \<Rightarrow>
          and_then (LockRequest_release E a False (send rid ''ok'' s))
            (\<lambda>u s1. cancel_timeout_release a s1)
      | ABSENT_HELD \<Rightarrow>
          and_then (LockRequest_release E a False (send rid ERR_NOT_HELD s))
            (\<lambda>u s1. cancel_timeout_release a s1)
      | PRESENT_WAITING \<Rightarrow> (Inr (), send rid ERR_CONCURRENT s)
      | INITIAL \<Rightarrow> (Inr (), send rid ERR_NOT_HELD s)
      | ABSENT_WAITING \<Rightarrow> (Inr (), send rid ERR_NOT_HELD s))"

subsection \<open>ZMQLockServer\<close>

text \<open>\<^verbatim>\<open>Task.__call__\<close>, for a task the loop has popped.\<close>

definition Task_call :: "env \<Rightarrow> Task \<Rightarrow> ZMQLockServer \<Rightarrow> (exn + unit) \<times> ZMQLockServer" where
  "Task_call E task s =
     (if called task then (Inl RuntimeError, s)
      else (case func task of
              Cb_advise_retry a \<Rightarrow> advise_retry E a s
            | Cb_give_up a \<Rightarrow> LockRequest_give_up a True s
            | Cb_release a fully \<Rightarrow> LockRequest_release E a fully s))"

text \<open>\<^verbatim>\<open>ZMQLockServer.acquire_request\<close>.\<close>

definition ZMQLockServer_acquire_request ::
  "env \<Rightarrow> bytes \<Rightarrow> bytes list \<Rightarrow> ZMQLockServer \<Rightarrow> (exn + unit) \<times> ZMQLockServer" where
  "ZMQLockServer_acquire_request E rid args s =
     (if \<not> (3 \<le> length args \<and> length args \<le> 4)
      then (Inr (), send rid ERR_WRONG_NUM_ARGS s)
      else (case py_float E (args ! 2) of
              None \<Rightarrow> (Inr (), send rid ERR_TIMEOUT_INVALID s)
            | Some t \<Rightarrow>
                if in_INVALID_NUMBERS t then (Inr (), send rid ERR_TIMEOUT_INVALID s)
                else if length args = 4 \<and> args ! 3 \<noteq> ''read_only''
                then (Inr (), send rid ERR_READ_ONLY_WRONG s)
                else (case LockRequest_instance (args ! 0) (args ! 1) s of (a, s1) \<Rightarrow>
                        LockRequest_acquire_request E a rid t (length args = 4) s1)))"

text \<open>\<^verbatim>\<open>ZMQLockServer.release_request\<close>.\<close>

definition ZMQLockServer_release_request ::
  "env \<Rightarrow> bytes \<Rightarrow> bytes list \<Rightarrow> ZMQLockServer \<Rightarrow> (exn + unit) \<times> ZMQLockServer" where
  "ZMQLockServer_release_request E rid args s =
     (if \<not> (length args = 2)
      then (Inr (), send rid ERR_WRONG_NUM_ARGS s)
      else (case LockRequest_instance (args ! 0) (args ! 1) s of (a, s1) \<Rightarrow>
              LockRequest_release_request E a rid s1))"

text \<open>
  One iteration of the \<^verbatim>\<open>while True\<close> loop of \<^verbatim>\<open>ZMQLockServer.run\<close>. The argument
  \<open>events\<close> is what the poll brought: \<open>Some request\<close> is a multipart message that
  arrived, \<open>None\<close> is the poll's time-out. \<^verbatim>\<open>due_in()\<close> reads the clock once when the
  queue is not empty. The iteration ends with \<open>Continue\<close>, with \<open>Break\<close> (after
  \<^verbatim>\<open>stop\<close>) or with an exception, which leaves \<^verbatim>\<open>run\<close> since nothing catches it.
\<close>

datatype loop = Continue | Break

definition run_iteration ::
  "env \<Rightarrow> bytes list option \<Rightarrow> ZMQLockServer \<Rightarrow> (exn + loop) \<times> ZMQLockServer" where
  "run_iteration E events s =
     (let s0 = (if tasks s = [] then s else snd (monotonic E s)) in
      case events of
        Some request \<Rightarrow>
          if length request < 3 then (Inr Continue, s0)
          else if request ! 1 \<noteq> [] then (Inr Continue, s0)
          else if request ! 2 = ''hello'' then (Inr Continue, send (request ! 0) ''hello'' s0)
          else if request ! 2 = ''acquire''
          then and_then (ZMQLockServer_acquire_request E (request ! 0) (drop 3 request) s0)
                 (\<lambda>u s1. (Inr Continue, s1))
          else if request ! 2 = ''release''
          then and_then (ZMQLockServer_release_request E (request ! 0) (drop 3 request) s0)
                 (\<lambda>u s1. (Inr Continue, s1))
          else if request ! 2 = ''stop'' \<and> stopping s0
          then (Inr Break, send (request ! 0) ''ok'' s0)
          else (Inr Continue, send (request ! 0) ERR_INVALID_COMMAND s0)
      | None \<Rightarrow>
          if tasks s0 = [] then (Inl IndexError, s0)
          else and_then (Task_call E (last (tasks s0)) (s0\<lparr>tasks := butlast (tasks s0)\<rparr>))
                 (\<lambda>u s1. (Inr Continue, s1)))"

text \<open>
  A fragment of Python's \<^verbatim>\<open>float()\<close> on bytes, used only to run the handlers on the
  literal messages of the examples below: an optional sign followed by at most 15
  decimal digits (an integer that a float holds exactly), and the special names
  \<^verbatim>\<open>nan\<close> and \<^verbatim>\<open>inf\<close> in lower case. On these inputs it gives what Python gives.
  It is no model of \<^verbatim>\<open>float()\<close> elsewhere: every other input, such as \<^verbatim>\<open>1.5\<close>, is
  outside the fragment and answered \<open>None\<close> here. The general theorems take
  \<^verbatim>\<open>float()\<close> as the parameter \<open>py_float\<close> and do not use this fragment.
\<close>

fun position :: "char \<Rightarrow> bytes \<Rightarrow> nat \<Rightarrow> nat option" where
  "position c [] i = None"
| "position c (d # ds) i = (if c = d then Some i else position c ds (Suc i))"

definition digit_value :: "char \<Rightarrow> nat option" where
  "digit_value c = position c ''0123456789'' 0"

fun digits_value :: "nat \<Rightarrow> bytes \<Rightarrow> nat option" where
  "digits_value acc [] = Some acc"
| "digits_value acc (c # cs) =
     (case digit_value c of None \<Rightarrow> None | Some d \<Rightarrow> digits_value (10 * acc + d) cs)"

definition unsigned_float :: "bytes \<Rightarrow> pyfloat option" where
  "unsigned_float b =
     (if b = ''nan'' then Some NaN
      else if b = ''inf'' then Some PInf
      else if b = [] then None
      else if 15 < length b then None
      else map_option (\<lambda>n. Fin (real n)) (digits_value 0 b))"

definition float_fragment :: "bytes \<Rightarrow> pyfloat option" where
  "float_fragment b =
     (case b of
        [] \<Rightarrow> None
      | c # cs \<Rightarrow>
          if c = CHR ''-''
          then map_option (\<lambda>x. case x of Fin v \<Rightarrow> Fin (- v) | PInf \<Rightarrow> NInf | NInf \<Rightarrow> PInf | NaN \<Rightarrow> NaN)
                 (unsigned_float cs)
          else if c = CHR ''+'' then unsigned_float cs
          else unsigned_float b)"

text \<open>
  An environment for the runs on literal messages: the clock reads 0, 1, 2, ...,
  \<^verbatim>\<open>set.pop()\<close> and the iteration are given for the sets of the run, and the
  rounding leaves a sum as it is, which is right for the sums of these runs (small
  integers, which floats hold exactly).
\<close>

definition sample_env :: "bytes \<Rightarrow> bytes list \<Rightarrow> env" where
  "sample_env popped order =
     \<lparr> monotonic_clock = real, set_pop = (\<lambda>S. popped),
       set_iter = (\<lambda>S. filter (\<lambda>c. c \<in> S) order), py_float = float_fragment,
       float_round = Fin \<rparr>"

text \<open>
  The lock as \<^verbatim>\<open>Lock.acquire\<close> leaves a new lock: client \<open>c\<close> is its only reader
  (level 1) or its writer (level 1), and nobody waits.
\<close>

definition granted_lock :: "bytes \<Rightarrow> bytes \<Rightarrow> bool \<Rightarrow> Lock" where
  "granted_lock k c ro =
     (if ro then (new_Lock k)\<lparr>readers := [c \<mapsto> 1]\<rparr>
      else (new_Lock k)\<lparr>writer := Some c, writer_reentrancy_level := 1\<rparr>)"

text \<open>
  The server after client \<open>c1\<close> has acquired key \<open>k\<close> as writer with timeout 10 on
  a new server, the clock reading 0 (see \<open>first_acquire_gives_held_server\<close>).
\<close>

definition held_server :: ZMQLockServer where
  "held_server =
     \<lparr> tasks = [\<lparr>task_id = 0, due_at = Fin 10, func = Cb_release 0 True, called = False\<rparr>],
       active_locks = [''k'' \<mapsto> granted_lock ''k'' ''c1'' False],
       active_requests = [(''k'', ''c1'') \<mapsto> 0],
       stopping = False,
       request_heap = (\<lambda>a. new_LockRequest [] [])
         (0 := \<lparr>key = ''k'', client_id = ''c1'', routing_id = Some ''r1'',
                timeout = Some (Fin 10), read_only = Some False, state = HELD,
                advise_retry_task = None, give_up_task = None,
                timeout_task = Some \<lparr>task_id = 0, due_at = Fin 10,
                                      func = Cb_release 0 True, called = False\<rparr>\<rparr>),
       next_request = 1, next_task = 1, clock_reads = 1, sent = [(''r1'', ''ok'')] \<rparr>"

text \<open>A server in which the slot of client \<open>c1\<close> on key \<open>k\<close> waits for an answer.\<close>

definition waiting_server :: ZMQLockServer where
  "waiting_server = new_ZMQLockServer
     \<lparr>active_requests := [(''k'', ''c1'') \<mapsto> 0],
      request_heap := (\<lambda>a. (new_LockRequest ''k'' ''c1'')\<lparr>state := PRESENT_WAITING\<rparr>)\<rparr>"

section \<open>Properties of the Lock\<close>

lemma grant_waiting_readers_apply:
  "grant_waiting_readers l c =
     (if c \<in> waiting_readers l then Some (dd_get (readers l) c + 1) else readers l c)"
  by (simp add: grant_waiting_readers_def)

lemma grant_waiting_readers_empty:
  "(grant_waiting_readers l = Map.empty) = (waiting_readers l = {} \<and> readers l = Map.empty)"
  by (auto simp: grant_waiting_readers_def fun_eq_iff)

lemma Lock_check_cleanup_fields:
  "lock_key (Lock_check_cleanup l) = lock_key l"
  "waiting_readers (Lock_check_cleanup l) = waiting_readers l"
  "waiting_writers (Lock_check_cleanup l) = waiting_writers l"
  "readers (Lock_check_cleanup l) = readers l"
  "writer (Lock_check_cleanup l) = writer l"
  "writer_reentrancy_level (Lock_check_cleanup l) = writer_reentrancy_level l"
  by (simp_all add: Lock_check_cleanup_def)

lemma Lock_check_cleanup_invalid:
  "invalid (Lock_check_cleanup l) =
     (invalid l \<or> (readers l = Map.empty \<and> waiting_readers l = {} \<and> waiting_writers l = {}
        \<and> writer l = None))"
  by (auto simp: Lock_check_cleanup_def)

lemmas lock_eval = new_Lock_def Lock_acquire_def Lock_acquire_body_def Lock_release_def
  Lock_release_body_def Lock_check_cleanup_fields Lock_check_cleanup_invalid
  install_waiting_writer_def grant_waiting_readers_apply grant_waiting_readers_empty
  dd_get_def Lock_give_up_def Let_def

text \<open>
  Claim C1 (the code departs from it). A client that holds the lock with reentry level N
  should be able to release it N times. Here client \<open>c1\<close> takes a new lock as writer
  twice (level 2) and \<open>c2\<close> then asks for it as writer and waits. The first
  \<^verbatim>\<open>release\<close> of \<open>c1\<close> lowers its level to 1, but the code goes on to hand the lock to
  the waiting writer \<open>c2\<close>; the second \<^verbatim>\<open>release\<close> of \<open>c1\<close> raises \<^verbatim>\<open>NotHeld\<close>.
\<close>

theorem C1_writer_reentry_lost_to_waiting_writer:
  "(let l0 = new_Lock ''k'';
        (r1, l1) = Lock_acquire ''c1'' False l0;
        (r2, l2) = Lock_acquire ''c1'' False l1;
        (r3, l3) = Lock_acquire ''c2'' False l2;
        (r4, l4) = Lock_release (\<lambda>S. ''c2'') ''c1'' False l3;
        (r5, l5) = Lock_release (\<lambda>S. ''c2'') ''c1'' False l4
    in r1 = Inr True \<and> r2 = Inr True \<and> r3 = Inr False
       \<and> writer l3 = Some ''c1'' \<and> writer_reentrancy_level l3 = 2
       \<and> waiting_writers l3 = {''c2''} \<and> readers l3 = Map.empty
       \<and> r4 = Inr {''c2''} \<and> writer l4 = Some ''c2'' \<and> writer_reentrancy_level l4 = 1
       \<and> r5 = Inl NotHeld)"
  by (simp add: lock_eval)

text \<open>
  Claim C2 (the code departs from it). After an operation the lock should never have a
  writer and readers at once. Here \<open>c1\<close> holds a new lock as writer with level 2 and
  \<open>c2\<close> waits as reader; the state has a writer and no reader. One \<^verbatim>\<open>release\<close> of
  \<open>c1\<close> leaves \<open>c1\<close> installed as writer (level 1) and grants the lock to the reader
  \<open>c2\<close> as well.
\<close>

theorem C2_writer_and_reader_after_partial_release:
  "(let l0 = new_Lock ''k'';
        (r1, l1) = Lock_acquire ''c1'' False l0;
        (r2, l2) = Lock_acquire ''c1'' False l1;
        (r3, l3) = Lock_acquire ''c2'' True l2;
        (r4, l4) = Lock_release (\<lambda>S. ''c2'') ''c1'' False l3
    in r1 = Inr True \<and> r2 = Inr True \<and> r3 = Inr False
       \<and> writer l3 = Some ''c1'' \<and> writer_reentrancy_level l3 = 2
       \<and> waiting_readers l3 = {''c2''} \<and> waiting_writers l3 = {} \<and> readers l3 = Map.empty
       \<and> r4 = Inr {''c2''} \<and> writer l4 = Some ''c1'' \<and> writer_reentrancy_level l4 = 1
       \<and> readers l4 ''c2'' = Some 1)"
  by (simp add: lock_eval)

text \<open>
  Claim C6. The writer \<open>c\<close> gives the lock up fully: its level is 1 or \<^verbatim>\<open>fully\<close> is
  passed. If writers wait, \<^verbatim>\<open>release\<close> installs one of them as writer with level 1,
  removes it from the waiting writers, and returns that singleton; the waiting readers
  keep waiting. Otherwise, if readers wait, each of them becomes a reader with level 1,
  no reader waits any more, and \<^verbatim>\<open>release\<close> returns exactly the set of them. The state
  is one of the data model: the writer is not a reader and no waiting reader is one
  (a client is in at most one of the sets), and \<^verbatim>\<open>set.pop()\<close> returns a member.
\<close>

theorem C6_writer_full_release_grants:
  assumes valid: "\<not> invalid l" and w: "writer l = Some c" and nr: "c \<notin> dom (readers l)"
    and disj: "waiting_readers l \<inter> dom (readers l) = {}"
    and full: "writer_reentrancy_level l = 1 \<or> fully"
    and pop: "waiting_writers l = {} \<or> pop (waiting_writers l) \<in> waiting_writers l"
  shows "(case Lock_release pop c fully l of (res, l') \<Rightarrow>
     (if waiting_writers l \<noteq> {}
      then (\<exists>w. w \<in> waiting_writers l \<and> res = Inr {w} \<and> writer l' = Some w
              \<and> writer_reentrancy_level l' = 1
              \<and> waiting_writers l' = waiting_writers l - {w}
              \<and> waiting_readers l' = waiting_readers l \<and> readers l' = readers l)
      else if waiting_readers l \<noteq> {}
      then res = Inr (waiting_readers l) \<and> waiting_readers l' = {} \<and> writer l' = None
           \<and> waiting_writers l' = {}
           \<and> readers l' = (\<lambda>x. if x \<in> waiting_readers l then Some 1 else readers l x)
      else res = Inr {} \<and> writer l' = None))"
proof -
  have zero: "dd_get (readers l) x = 0" if "x \<in> waiting_readers l" for x
    using that disj by (auto simp: dd_get_def split: option.splits)
  have grant: "grant_waiting_readers (l\<lparr>writer := None, writer_reentrancy_level := 0\<rparr>)
       = (\<lambda>x. if x \<in> waiting_readers l then Some 1 else readers l x)"
    by (rule ext) (simp add: grant_waiting_readers_apply zero)
  have body: "Lock_release_body pop c fully l =
      (let l1 = l\<lparr>writer := None, writer_reentrancy_level := 0\<rparr> in
       if waiting_writers l \<noteq> {} then install_waiting_writer pop l1
       else if waiting_readers l \<noteq> {}
       then (Inr (waiting_readers l),
             l1\<lparr>readers := grant_waiting_readers l1, waiting_readers := {}\<rparr>)
       else (Inr {}, l1))"
    using w nr full by (auto simp: Lock_release_body_def Let_def)
  show ?thesis
  proof (cases "waiting_writers l = {}")
    case False
    with pop have "pop (waiting_writers l) \<in> waiting_writers l" by simp
    with False valid show ?thesis
      by (simp add: Lock_release_def body install_waiting_writer_def Let_def
            Lock_check_cleanup_fields)
  next
    case True
    with valid show ?thesis
      by (simp add: Lock_release_def body Let_def Lock_check_cleanup_fields grant)
  qed
qed

theorem C6_writer_full_release_grants_witness:
  "(let l = (new_Lock ''k'')\<lparr>writer := Some ''c1'', writer_reentrancy_level := 1,
               waiting_writers := {''c2''}, waiting_readers := {''c3''}\<rparr>;
        l2 = (new_Lock ''k'')\<lparr>writer := Some ''c1'', writer_reentrancy_level := 3,
               waiting_readers := {''c3'', ''c4''}\<rparr>
    in \<not> invalid l \<and> writer l = Some ''c1'' \<and> ''c1'' \<notin> dom (readers l)
       \<and> waiting_readers l \<inter> dom (readers l) = {} \<and> writer_reentrancy_level l = 1
       \<and> ''c2'' \<in> waiting_writers l
       \<and> fst (Lock_release (\<lambda>S. ''c2'') ''c1'' False l) = Inr {''c2''}
       \<and> writer (snd (Lock_release (\<lambda>S. ''c2'') ''c1'' False l)) = Some ''c2''
       \<and> waiting_writers (snd (Lock_release (\<lambda>S. ''c2'') ''c1'' False l)) = {}
       \<and> fst (Lock_release (\<lambda>S. ''c2'') ''c1'' True l2) = Inr {''c3'', ''c4''}
       \<and> readers (snd (Lock_release (\<lambda>S. ''c2'') ''c1'' True l2)) ''c4'' = Some 1
       \<and> waiting_readers (snd (Lock_release (\<lambda>S. ''c2'') ''c1'' True l2)) = {})"
  using C6_writer_full_release_grants
          [of "(new_Lock ''k'')\<lparr>writer := Some ''c1'', writer_reentrancy_level := 1,
                 waiting_writers := {''c2''}, waiting_readers := {''c3''}\<rparr>"
              "''c1''" False "\<lambda>S. ''c2''"]
        C6_writer_full_release_grants
          [of "(new_Lock ''k'')\<lparr>writer := Some ''c1'', writer_reentrancy_level := 3,
                 waiting_readers := {''c3'', ''c4''}\<rparr>"
              "''c1''" True "\<lambda>S. ''c2''"]
  by (simp add: new_Lock_def Let_def split: prod.splits)

section \<open>Properties of the task queue\<close>

lemma and_then_Inl: "and_then (Inl e, s) f = (Inl e, s)"
  by (simp add: and_then_def)

lemma and_then_Inr: "and_then (Inr x, s) f = f x s"
  by (simp add: and_then_def)

text \<open>A task that no queued task is due before goes to the end of the queue.\<close>

lemma bisect_right_end:
  "(\<forall>y\<in>set a. \<not> Task_lt x y) \<Longrightarrow> lo \<le> hi \<Longrightarrow> hi \<le> length a
     \<Longrightarrow> bisect_right a x lo hi = hi"
proof (induction a x lo hi rule: bisect_right.induct)
  case (1 a x lo hi)
  show ?case
  proof (cases "lo < hi")
    case True
    then have mid: "(lo + hi) div 2 < hi" by linarith
    with "1.prems" have "a ! ((lo + hi) div 2) \<in> set a" by simp
    with "1.prems"(1) have nlt: "\<not> Task_lt x (a ! ((lo + hi) div 2))" by blast
    have "bisect_right a x ((lo + hi) div 2 + 1) hi = hi"
      using "1.IH"(2) [OF True nlt] mid "1.prems" by simp
    with True nlt show ?thesis by (subst bisect_right.simps) simp
  next
    case False
    with "1.prems" show ?thesis by (subst bisect_right.simps) simp
  qed
qed

lemma TaskQueue_add_end:
  "\<forall>y\<in>set q. \<not> flt (due_at y) (due_at x) \<Longrightarrow> TaskQueue_add q x = q @ [x]"
  using bisect_right_end [of q x 0 "length q"]
  by (simp add: TaskQueue_add_def Task_lt_def Task_gt_def)

lemma TaskQueue_add_Nil: "TaskQueue_add [] x = [x]"
  by (simp add: TaskQueue_add_end)

lemma list_remove_filter:
  "distinct (map task_id q) \<Longrightarrow>
   list_remove q t =
     (if task_id t \<in> set (map task_id q)
      then Inr (filter (\<lambda>x. task_id x \<noteq> task_id t) q) else Inl ValueError)"
proof (induction q)
  case Nil
  show ?case by simp
next
  case (Cons x xs)
  show ?case
  proof (cases "task_id x = task_id t")
    case True
    with Cons.prems have "task_id t \<notin> task_id ` set xs" by simp
    then have "\<forall>y\<in>set xs. task_id y \<noteq> task_id t" by (metis imageI)
    then have "filter (\<lambda>y. task_id y \<noteq> task_id t) xs = xs" by (simp add: filter_id_conv)
    with True show ?thesis by simp
  next
    case False
    with Cons show ?thesis by simp
  qed
qed

text \<open>
  Claim C5, as the code has it. In a queue of distinct task objects, \<^verbatim>\<open>cancel(task)\<close>
  removes the task when it is pending and leaves the other tasks in their order. When
  the task is not in the queue (it has fired, so the loop has popped it, or it was never
  added) \<^verbatim>\<open>cancel\<close> is not a no-op: \<^verbatim>\<open>list.remove\<close> raises \<^verbatim>\<open>ValueError\<close>, and the
  queue is left as it was.
\<close>

theorem C5_cancel_removes_or_raises:
  assumes "distinct (map task_id q)"
  shows "TaskQueue_cancel q task =
     (if task_id task \<in> set (map task_id q)
      then Inr (filter (\<lambda>x. task_id x \<noteq> task_id task) q) else Inl ValueError)"
  using assms by (simp add: TaskQueue_cancel_def list_remove_filter)

theorem C5_cancel_removes_or_raises_witness:
  "(let t0 = \<lparr>task_id = 0, due_at = Fin 1, func = Cb_give_up 0, called = False\<rparr>;
        t1 = \<lparr>task_id = 1, due_at = Fin 2, func = Cb_advise_retry 1, called = False\<rparr>
    in distinct (map task_id [t1, t0])
       \<and> TaskQueue_cancel [t1, t0] t1 = Inr [t0]
       \<and> TaskQueue_cancel [t0] t1 = Inl ValueError)"
  using C5_cancel_removes_or_raises
          [of "[\<lparr>task_id = 1, due_at = Fin 2, func = Cb_advise_retry 1, called = False\<rparr>,
                \<lparr>task_id = 0, due_at = Fin 1, func = Cb_give_up 0, called = False\<rparr>]"
              "\<lparr>task_id = 1, due_at = Fin 2, func = Cb_advise_retry 1, called = False\<rparr>"]
        C5_cancel_removes_or_raises
          [of "[\<lparr>task_id = 0, due_at = Fin 1, func = Cb_give_up 0, called = False\<rparr>]"
              "\<lparr>task_id = 1, due_at = Fin 2, func = Cb_advise_retry 1, called = False\<rparr>"]
  by (simp add: Let_def)

text \<open>
  Claim C5, as stated, fails: a task is added to an empty queue, the loop pops it and
  calls it, and \<^verbatim>\<open>cancel\<close> of this fired task raises \<^verbatim>\<open>ValueError\<close> instead of
  returning with the queue unchanged.
\<close>

theorem C5_cancel_fired_task_counterexample:
  "(let t = \<lparr>task_id = 0, due_at = Fin 1, func = Cb_give_up 0, called = False\<rparr>;
        q0 = TaskQueue_add [] t;
        popped = last q0;
        q1 = butlast q0
    in q0 = [t] \<and> popped = t \<and> q1 = []
       \<and> TaskQueue_cancel q1 (popped\<lparr>called := True\<rparr>) = Inl ValueError
       \<and> TaskQueue_cancel q1 (popped\<lparr>called := True\<rparr>) \<noteq> Inr q1)"
  by (simp add: TaskQueue_add_Nil TaskQueue_cancel_def Let_def)

section \<open>Properties of the request state machine\<close>

lemmas sample_eval = sample_env_def float_fragment_def unsigned_float_def digit_value_def

text \<open>
  Claim C8. The slot \<open>(k, c)\<close> has a request in state \<open>PRESENT_WAITING\<close>. A further
  \<^verbatim>\<open>acquire\<close> for the slot (with arguments that pass the argument checks of the server:
  three or four of them, a timeout that parses to a valid number, \<^verbatim>\<open>read_only\<close> as the
  fourth) and a \<^verbatim>\<open>release\<close> for the slot are answered \<^verbatim>\<open>ERR_CONCURRENT\<close>, and nothing
  of the server changes but the list of replies sent: the request, its state, the locks
  and the pending tasks are as before. The same holds for the two methods of the
  request, whatever their arguments.
\<close>

theorem C8_present_waiting_rejects_concurrent:
  assumes slot: "active_requests s (k, c) = Some a"
    and st: "state (request_heap s a) = PRESENT_WAITING"
    and args: "args = [k, c, tb] \<or> args = [k, c, tb, ''read_only'']"
    and tb: "py_float E tb = Some t" and valid: "\<not> in_INVALID_NUMBERS t"
  shows "ZMQLockServer_acquire_request E rid args s
           = (Inr (), s\<lparr>sent := sent s @ [(rid, ERR_CONCURRENT)]\<rparr>)
       \<and> ZMQLockServer_release_request E rid' [k, c] s
           = (Inr (), s\<lparr>sent := sent s @ [(rid', ERR_CONCURRENT)]\<rparr>)
       \<and> LockRequest_acquire_request E a rid t' ro s
           = (Inr (), s\<lparr>sent := sent s @ [(rid, ERR_CONCURRENT)]\<rparr>)
       \<and> LockRequest_release_request E a rid' s
           = (Inr (), s\<lparr>sent := sent s @ [(rid', ERR_CONCURRENT)]\<rparr>)"
proof -
  have acq: "LockRequest_acquire_request E a rid t' ro s
           = (Inr (), s\<lparr>sent := sent s @ [(rid, ERR_CONCURRENT)]\<rparr>)" for t' ro
    using st by (simp add: LockRequest_acquire_request_def send_def)
  have rel: "LockRequest_release_request E a rid' s
           = (Inr (), s\<lparr>sent := sent s @ [(rid', ERR_CONCURRENT)]\<rparr>)"
    using st by (simp add: LockRequest_release_request_def send_def)
  have inst: "LockRequest_instance k c s = (a, s)"
    using slot by (simp add: LockRequest_instance_def)
  have "ZMQLockServer_acquire_request E rid args s
           = (Inr (), s\<lparr>sent := sent s @ [(rid, ERR_CONCURRENT)]\<rparr>)"
    using args tb valid inst acq
    by (auto simp: ZMQLockServer_acquire_request_def)
  moreover have "ZMQLockServer_release_request E rid' [k, c] s
           = (Inr (), s\<lparr>sent := sent s @ [(rid', ERR_CONCURRENT)]\<rparr>)"
    using inst rel by (simp add: ZMQLockServer_release_request_def)
  ultimately show ?thesis using acq rel by simp
qed

theorem C8_present_waiting_rejects_concurrent_witness:
  "active_requests waiting_server (''k'', ''c1'') = Some 0
   \<and> state (request_heap waiting_server 0) = PRESENT_WAITING
   \<and> py_float (sample_env [] []) ''10'' = Some (Fin 10)
   \<and> \<not> in_INVALID_NUMBERS (Fin 10)
   \<and> ZMQLockServer_acquire_request (sample_env [] []) ''r1'' [''k'', ''c1'', ''10''] waiting_server
       = (Inr (), waiting_server\<lparr>sent := [(''r1'', ERR_CONCURRENT)]\<rparr>)
   \<and> ZMQLockServer_release_request (sample_env [] []) ''r2'' [''k'', ''c1''] waiting_server
       = (Inr (), waiting_server\<lparr>sent := [(''r2'', ERR_CONCURRENT)]\<rparr>)"
proof -
  have 1: "active_requests waiting_server (''k'', ''c1'') = Some 0"
    by (simp add: waiting_server_def new_ZMQLockServer_def)
  have 2: "state (request_heap waiting_server 0) = PRESENT_WAITING"
    by (simp add: waiting_server_def new_ZMQLockServer_def new_LockRequest_def)
  have 3: "py_float (sample_env [] []) ''10'' = Some (Fin 10)"
    by (simp add: sample_eval)
  have 4: "\<not> in_INVALID_NUMBERS (Fin 10)"
    by (simp add: in_INVALID_NUMBERS_def INVALID_NUMBERS_def)
  have 5: "sent waiting_server = []"
    by (simp add: waiting_server_def new_ZMQLockServer_def)
  show ?thesis
    using C8_present_waiting_rejects_concurrent
            [OF 1 2 _ 3 4, of "[''k'', ''c1'', ''10'']" "''r1''" "''r2''"] 1 2 3 4 5
    by simp
qed

section \<open>Properties of the server\<close>

lemma Lock_acquire_new:
  "Lock_acquire c ro (new_Lock k) = (Inr True, granted_lock k c ro)"
  by (simp add: lock_eval granted_lock_def Lock_check_cleanup_def)

lemma granted_lock_valid: "\<not> invalid (granted_lock k c ro)"
  by (simp add: granted_lock_def new_Lock_def)

lemma new_Lock_valid: "\<not> invalid (new_Lock k)"
  by (simp add: new_Lock_def)

lemma call_Lock_acquire_free:
  "active_locks s k = None \<Longrightarrow>
   call_Lock_acquire k c ro s
     = (Inr True, s\<lparr>active_locks := (active_locks s)(k \<mapsto> granted_lock k c ro)\<rparr>)"
  by (simp add: call_Lock_acquire_def Lock_instance_def Lock_acquire_new store_lock_def
        granted_lock_valid new_Lock_valid)

lemma initial_acquisition_free:
  assumes "active_locks s (key (request_heap s a)) = None"
  shows "initial_acquisition E a rid t ro s =
     (Inr (), set_state a HELD (schedule_timeout_release E a t (send rid ''ok''
        ((set_req a (\<lambda>r. r\<lparr>routing_id := Some rid, timeout := Some t, read_only := Some ro\<rparr>) s)
           \<lparr>active_locks := (active_locks s)
              (key (request_heap s a) \<mapsto>
                 granted_lock (key (request_heap s a)) (client_id (request_heap s a)) ro)\<rparr>))))"
proof -
  let ?s1 = "set_req a (\<lambda>r. r\<lparr>routing_id := Some rid, timeout := Some t, read_only := Some ro\<rparr>) s"
  have k: "key (request_heap ?s1 a) = key (request_heap s a)"
    and c: "client_id (request_heap ?s1 a) = client_id (request_heap s a)"
    and al: "active_locks ?s1 = active_locks s"
    by (simp_all add: set_req_def)
  have "call_Lock_acquire (key (request_heap s a)) (client_id (request_heap s a)) ro ?s1
     = (Inr True, ?s1\<lparr>active_locks := (active_locks s)
              (key (request_heap s a) \<mapsto>
                 granted_lock (key (request_heap s a)) (client_id (request_heap s a)) ro)\<rparr>)"
    using call_Lock_acquire_free [of ?s1 "key (request_heap s a)"] assms al by simp
  then show ?thesis
    by (simp add: initial_acquisition_def Let_def k c and_then_Inr)
qed

lemma ZMQLockServer_acquire_request_valid:
  assumes "args = [k, c, tb] \<or> args = [k, c, tb, ''read_only'']"
    and "py_float E tb = Some t" and "\<not> in_INVALID_NUMBERS t"
  shows "ZMQLockServer_acquire_request E rid args s =
     (case LockRequest_instance k c s of (a, s1) \<Rightarrow>
        LockRequest_acquire_request E a rid t (args = [k, c, tb, ''read_only'']) s1)"
  using assms by (auto simp: ZMQLockServer_acquire_request_def)

lemma acquire_free:
  assumes slot: "active_requests s (k, c) = None" and lock: "active_locks s k = None"
    and args: "args = [k, c, tb] \<or> args = [k, c, tb, ''read_only'']"
    and tb: "py_float E tb = Some t" and valid: "\<not> in_INVALID_NUMBERS t"
  shows "ZMQLockServer_acquire_request E rid args s =
     (Inr (), set_state (next_request s) HELD
        (schedule_timeout_release E (next_request s) t (send rid ''ok''
          (s\<lparr>active_requests := (active_requests s)((k, c) \<mapsto> next_request s),
              next_request := Suc (next_request s),
              request_heap := (request_heap s)
                (next_request s := (new_LockRequest k c)
                   \<lparr>routing_id := Some rid, timeout := Some t,
                    read_only := Some (args = [k, c, tb, ''read_only''])\<rparr>),
              active_locks := (active_locks s)
                (k \<mapsto> granted_lock k c (args = [k, c, tb, ''read_only'']))\<rparr>))))"
proof -
  let ?a = "next_request s"
  let ?s1 = "s\<lparr>request_heap := (request_heap s)(?a := new_LockRequest k c),
             active_requests := (active_requests s)((k, c) \<mapsto> ?a),
             next_request := Suc ?a\<rparr>"
  have inst: "LockRequest_instance k c s = (?a, ?s1)"
    using slot by (simp add: LockRequest_instance_def)
  have st: "state (request_heap ?s1 ?a) = INITIAL"
    and kk: "key (request_heap ?s1 ?a) = k" and cc: "client_id (request_heap ?s1 ?a) = c"
    by (simp_all add: new_LockRequest_def)
  have free: "active_locks ?s1 (key (request_heap ?s1 ?a)) = None"
    using lock by (simp add: new_LockRequest_def)
  show ?thesis
    unfolding ZMQLockServer_acquire_request_valid [OF args tb valid] inst prod.case
      LockRequest_acquire_request_def st rs.case
      initial_acquisition_free [OF free]
    by (simp add: set_req_def new_LockRequest_def)
qed


lemma acquire_free_fields:
  assumes slot: "active_requests s (k, c) = None" and lock: "active_locks s k = None"
    and args: "args = [k, c, tb] \<or> args = [k, c, tb, ''read_only'']"
    and tb: "py_float E tb = Some t" and valid: "\<not> in_INVALID_NUMBERS t"
  shows "\<exists>s'. ZMQLockServer_acquire_request E rid args s = (Inr (), s')
     \<and> sent s' = sent s @ [(rid, ''ok'')]
     \<and> active_requests s' = (active_requests s)((k, c) \<mapsto> next_request s)
     \<and> active_locks s' = (active_locks s)(k \<mapsto> granted_lock k c (args = [k, c, tb, ''read_only'']))
     \<and> request_heap s' = (request_heap s)
          (next_request s := \<lparr>key = k, client_id = c, routing_id = Some rid,
             timeout = Some t, read_only = Some (args = [k, c, tb, ''read_only'']),
             state = HELD, advise_retry_task = None, give_up_task = None,
             timeout_task = Some \<lparr>task_id = next_task s,
                due_at = fadd (float_round E) (Fin (monotonic_clock E (clock_reads s))) t,
                func = Cb_release (next_request s) True, called = False\<rparr>\<rparr>)
     \<and> tasks s' = TaskQueue_add (tasks s)
          \<lparr>task_id = next_task s,
           due_at = fadd (float_round E) (Fin (monotonic_clock E (clock_reads s))) t,
           func = Cb_release (next_request s) True, called = False\<rparr>
     \<and> next_request s' = Suc (next_request s) \<and> next_task s' = Suc (next_task s)
     \<and> clock_reads s' = Suc (clock_reads s) \<and> stopping s' = stopping s"
  unfolding acquire_free [OF slot lock args tb valid]
  by (simp add: set_state_def set_req_def schedule_timeout_release_def new_Task_def
        monotonic_def send_def new_LockRequest_def)


lemma Lock_release_granted:
  "Lock_release pop c True (granted_lock k c ro)
     = (Inr {}, (new_Lock k)\<lparr>invalid := True\<rparr>)"
  by (simp add: granted_lock_def Lock_release_def Lock_release_body_def new_Lock_def
        Lock_check_cleanup_def dd_get_def Let_def)

lemma call_Lock_release_granted:
  "active_locks s k = Some (granted_lock k c ro) \<Longrightarrow>
   call_Lock_release E k c True s = (Inr {}, s\<lparr>active_locks := (active_locks s)(k := None)\<rparr>)"
  by (simp add: call_Lock_release_def Lock_instance_def Lock_release_granted store_lock_def
        granted_lock_valid)

lemma LockRequest_release_sole:
  assumes "key (request_heap s a) = k" and "client_id (request_heap s a) = c"
    and "active_locks s k = Some (granted_lock k c ro)"
    and "active_requests s (k, c) = Some a'" and "set_iter E {} = []"
  shows "LockRequest_release E a True s =
     (Inr (), s\<lparr>active_locks := (active_locks s)(k := None),
                active_requests := (active_requests s)((k, c) := None)\<rparr>)"
  using assms
  by (simp add: LockRequest_release_def Let_def call_Lock_release_granted and_then_Inr
        LockRequest_cleanup_def)

lemma run_iteration_timeout:
  "tasks s \<noteq> [] \<Longrightarrow>
   run_iteration E None s =
     and_then (Task_call E (last (tasks s))
                 (s\<lparr>clock_reads := Suc (clock_reads s), tasks := butlast (tasks s)\<rparr>))
       (\<lambda>u s1. (Inr Continue, s1))"
  by (simp add: run_iteration_def Let_def monotonic_def)

lemma run_iteration_acquire:
  "run_iteration E (Some (rid # [] # ''acquire'' # args)) s =
     and_then (ZMQLockServer_acquire_request E rid args
                 (if tasks s = [] then s else s\<lparr>clock_reads := Suc (clock_reads s)\<rparr>))
       (\<lambda>u s1. (Inr Continue, s1))"
  by (simp add: run_iteration_def Let_def monotonic_def)

lemma run_iteration_release:
  "run_iteration E (Some (rid # [] # ''release'' # args)) s =
     and_then (ZMQLockServer_release_request E rid args
                 (if tasks s = [] then s else s\<lparr>clock_reads := Suc (clock_reads s)\<rparr>))
       (\<lambda>u s1. (Inr Continue, s1))"
  by (simp add: run_iteration_def Let_def monotonic_def)

lemma new_server_fields:
  "tasks new_ZMQLockServer = []" "active_locks new_ZMQLockServer k = None"
  "active_requests new_ZMQLockServer kc = None" "sent new_ZMQLockServer = []"
  "next_request new_ZMQLockServer = 0" "next_task new_ZMQLockServer = 0"
  "clock_reads new_ZMQLockServer = 0"
  by (simp_all add: new_ZMQLockServer_def)

lemma sample_env_fields:
  "py_float (sample_env p order) = float_fragment"
  "monotonic_clock (sample_env p order) = real"
  "set_iter (sample_env p order) {} = []"
  "set_pop (sample_env p order) S = p"
  "float_round (sample_env p order) = Fin"
  by (simp_all add: sample_env_def)

lemma float_fragment_samples:
  "float_fragment ''10'' = Some (Fin 10)" "float_fragment ''-5'' = Some (Fin (- 5))"
  "float_fragment ''nan'' = Some NaN" "float_fragment ''-10'' = Some (Fin (- 10))"
  by (simp_all add: float_fragment_def unsigned_float_def digit_value_def)

lemma monotone_rounding_Fin: "monotone_rounding Fin"
  by (simp add: monotone_rounding_def)

lemma flt_fle_trans: "flt a b \<Longrightarrow> fle b c \<Longrightarrow> flt a c"
  by (cases a; cases b; cases c) auto

lemma fadd_mono:
  assumes "monotone_rounding rnd" and "a \<le> a'" and "fadd rnd (Fin a) t \<noteq> NaN"
  shows "fle (fadd rnd (Fin a) t) (fadd rnd (Fin a') t)"
proof (cases t)
  case (Fin b)
  with assms(1,2) show ?thesis by (simp add: monotone_rounding_def)
next
  case NaN
  with assms(3) show ?thesis by simp
qed simp_all

text \<open>A queue of one task: the new task goes before it when it is due later.\<close>

lemma TaskQueue_add_single:
  "TaskQueue_add [a] x = (if flt (due_at a) (due_at x) then [x, a] else [a, x])"
  by (simp add: TaskQueue_add_def Task_lt_def Task_gt_def
        bisect_right.simps [of "[a]" x 0 "Suc 0"] bisect_right.simps [of "[a]" x 0 0]
        bisect_right.simps [of "[a]" x "Suc 0" "Suc 0"])

text \<open>
  Claim C10, as the code has it. An \<^verbatim>\<open>acquire\<close> whose timeout parses to a finite
  negative number \<open>t\<close> is not answered \<^verbatim>\<open>ERR_TIMEOUT_INVALID\<close>: the handler passes it to
  the request with the value \<open>t\<close>, as it does with any valid number
  (\<open>ZMQLockServer_acquire_request_valid\<close> has no condition on the sign). On a free lock
  and an untracked slot the reply is \<^verbatim>\<open>ok\<close>, the request is \<open>HELD\<close>, and the lease
  task is queued, due at the float sum of the clock's reading and \<open>t\<close>. With a monotone
  rounding this due time is not after the reading (it is the reading itself when \<open>t\<close>
  is too small to change the sum). The lock is not always released on the next
  iteration: when no queued task is due before the lease, and no message arrives in the
  next iteration, that iteration pops the lease and releases fully, so that the lock and
  the request are gone.
\<close>

theorem C10_negative_timeout_accepted_lease_due:
  assumes args: "args = [k, c, tb] \<or> args = [k, c, tb, ''read_only'']"
    and tb: "py_float E tb = Some (Fin t)" and neg: "t < 0"
  shows "ZMQLockServer_acquire_request E rid args s =
         (case LockRequest_instance k c s of (a, s') \<Rightarrow>
            LockRequest_acquire_request E a rid (Fin t) (args = [k, c, tb, ''read_only'']) s')
     \<and> (active_requests s (k, c) = None \<and> active_locks s k = None
        \<longrightarrow> (\<exists>s1 lease.
               ZMQLockServer_acquire_request E rid args s = (Inr (), s1)
             \<and> sent s1 = sent s @ [(rid, ''ok'')]
             \<and> active_requests s1 (k, c) = Some (next_request s)
             \<and> state (request_heap s1 (next_request s)) = HELD
             \<and> timeout_task (request_heap s1 (next_request s)) = Some lease
             \<and> active_locks s1 k = Some (granted_lock k c (args = [k, c, tb, ''read_only'']))
             \<and> tasks s1 = TaskQueue_add (tasks s) lease
             \<and> due_at lease =
                 fadd (float_round E) (Fin (monotonic_clock E (clock_reads s))) (Fin t)
             \<and> func lease = Cb_release (next_request s) True
             \<and> (monotone_rounding (float_round E)
                  \<and> float_round E (monotonic_clock E (clock_reads s))
                      = Fin (monotonic_clock E (clock_reads s))
                \<longrightarrow> fle (due_at lease) (Fin (monotonic_clock E (clock_reads s))))
             \<and> ((\<forall>x\<in>set (tasks s). \<not> flt (due_at x) (due_at lease)) \<and> set_iter E {} = []
                \<longrightarrow> (\<exists>s2. run_iteration E None s1 = (Inr Continue, s2)
                      \<and> active_locks s2 k = None \<and> active_requests s2 (k, c) = None
                      \<and> tasks s2 = tasks s \<and> sent s2 = sent s1))))"
proof (intro conjI impI)
  have valid: "\<not> in_INVALID_NUMBERS (Fin t)"
    by (simp add: in_INVALID_NUMBERS_def INVALID_NUMBERS_def)
  show passed: "ZMQLockServer_acquire_request E rid args s =
         (case LockRequest_instance k c s of (a, s') \<Rightarrow>
            LockRequest_acquire_request E a rid (Fin t) (args = [k, c, tb, ''read_only'']) s')"
    by (rule ZMQLockServer_acquire_request_valid [OF args tb valid])
  assume free: "active_requests s (k, c) = None \<and> active_locks s k = None"
  then have slot: "active_requests s (k, c) = None" and lock: "active_locks s k = None"
    by simp_all
  let ?ro = "args = [k, c, tb, ''read_only'']"
  let ?a = "next_request s"
  let ?now = "monotonic_clock E (clock_reads s)"
  let ?lease = "\<lparr>task_id = next_task s,
                 due_at = fadd (float_round E) (Fin ?now) (Fin t),
                 func = Cb_release ?a True, called = False\<rparr>"
  from acquire_free_fields [OF slot lock args tb valid, of rid]
  obtain s1 where s1: "ZMQLockServer_acquire_request E rid args s = (Inr (), s1)"
    and sent1: "sent s1 = sent s @ [(rid, ''ok'')]"
    and ar1: "active_requests s1 = (active_requests s)((k, c) \<mapsto> ?a)"
    and al1: "active_locks s1 = (active_locks s)(k \<mapsto> granted_lock k c ?ro)"
    and rh1: "request_heap s1 = (request_heap s)
          (?a := \<lparr>key = k, client_id = c, routing_id = Some rid,
             timeout = Some (Fin t), read_only = Some ?ro,
             state = HELD, advise_retry_task = None, give_up_task = None,
             timeout_task = Some ?lease\<rparr>)"
    and tasks1: "tasks s1 = TaskQueue_add (tasks s) ?lease"
    by blast
  have past: "monotone_rounding (float_round E) \<and> float_round E ?now = Fin ?now
       \<longrightarrow> fle (due_at ?lease) (Fin ?now)"
  proof
    assume h: "monotone_rounding (float_round E) \<and> float_round E ?now = Fin ?now"
    from neg have "?now + t \<le> ?now" by simp
    with h have "fle (float_round E (?now + t)) (float_round E ?now)"
      unfolding monotone_rounding_def by blast
    with h show "fle (due_at ?lease) (Fin ?now)" by simp
  qed
  have fired: "(\<forall>x\<in>set (tasks s). \<not> flt (due_at x) (due_at ?lease)) \<and> set_iter E {} = []
       \<longrightarrow> (\<exists>s2. run_iteration E None s1 = (Inr Continue, s2)
             \<and> active_locks s2 k = None \<and> active_requests s2 (k, c) = None
             \<and> tasks s2 = tasks s \<and> sent s2 = sent s1)"
  proof
    assume h: "(\<forall>x\<in>set (tasks s). \<not> flt (due_at x) (due_at ?lease)) \<and> set_iter E {} = []"
    then have iter: "set_iter E {} = []" by simp
    have end1: "tasks s1 = tasks s @ [?lease]"
      unfolding tasks1 using h by (intro TaskQueue_add_end) simp
    let ?s1' = "s1\<lparr>clock_reads := Suc (clock_reads s1), tasks := butlast (tasks s1)\<rparr>"
    let ?s2 = "?s1'\<lparr>active_locks := (active_locks ?s1')(k := None),
                  active_requests := (active_requests ?s1')((k, c) := None)\<rparr>"
    have rel: "LockRequest_release E ?a True ?s1' = (Inr (), ?s2)"
      by (rule LockRequest_release_sole [where ro = ?ro and a' = ?a])
         (simp_all add: rh1 al1 ar1 iter)
    have run: "run_iteration E None s1 = (Inr Continue, ?s2)"
      using end1 rel by (simp add: run_iteration_timeout Task_call_def and_then_Inr)
    show "\<exists>s2. run_iteration E None s1 = (Inr Continue, s2)
             \<and> active_locks s2 k = None \<and> active_requests s2 (k, c) = None
             \<and> tasks s2 = tasks s \<and> sent s2 = sent s1"
      by (rule exI [of _ ?s2]) (simp add: run end1)
  qed
  have fields: "active_requests s1 (k, c) = Some ?a" "state (request_heap s1 ?a) = HELD"
    "timeout_task (request_heap s1 ?a) = Some ?lease"
    "active_locks s1 k = Some (granted_lock k c ?ro)"
    by (simp_all add: ar1 al1 rh1)
  show "\<exists>s1 lease.
               ZMQLockServer_acquire_request E rid args s = (Inr (), s1)
             \<and> sent s1 = sent s @ [(rid, ''ok'')]
             \<and> active_requests s1 (k, c) = Some (next_request s)
             \<and> state (request_heap s1 (next_request s)) = HELD
             \<and> timeout_task (request_heap s1 (next_request s)) = Some lease
             \<and> active_locks s1 k = Some (granted_lock k c (args = [k, c, tb, ''read_only'']))
             \<and> tasks s1 = TaskQueue_add (tasks s) lease
             \<and> due_at lease =
                 fadd (float_round E) (Fin (monotonic_clock E (clock_reads s))) (Fin t)
             \<and> func lease = Cb_release (next_request s) True
             \<and> (monotone_rounding (float_round E)
                  \<and> float_round E (monotonic_clock E (clock_reads s))
                      = Fin (monotonic_clock E (clock_reads s))
                \<longrightarrow> fle (due_at lease) (Fin (monotonic_clock E (clock_reads s))))
             \<and> ((\<forall>x\<in>set (tasks s). \<not> flt (due_at x) (due_at lease)) \<and> set_iter E {} = []
                \<longrightarrow> (\<exists>s2. run_iteration E None s1 = (Inr Continue, s2)
                      \<and> active_locks s2 k = None \<and> active_requests s2 (k, c) = None
                      \<and> tasks s2 = tasks s \<and> sent s2 = sent s1))"
    apply (rule exI [of _ s1])
    apply (rule exI [of _ ?lease])
    apply (intro conjI)
              apply (rule s1)
             apply (rule sent1)
            apply (rule fields(1))
           apply (rule fields(2))
          apply (rule fields(3))
         apply (rule fields(4))
        apply (rule tasks1)
       apply simp
      apply simp
     apply (rule past)
    apply (rule fired)
    done
qed

theorem C10_negative_timeout_accepted_lease_due_witness:
  "py_float (sample_env [] []) ''-5'' = Some (Fin (- 5))
   \<and> active_requests new_ZMQLockServer (''k'', ''c1'') = None
   \<and> active_locks new_ZMQLockServer ''k'' = None
   \<and> tasks new_ZMQLockServer = []
   \<and> set_iter (sample_env [] []) {} = []
   \<and> monotone_rounding (float_round (sample_env [] []))
   \<and> (\<exists>s1 s2 lease.
        ZMQLockServer_acquire_request (sample_env [] []) ''r1'' [''k'', ''c1'', ''-5'']
          new_ZMQLockServer = (Inr (), s1)
        \<and> sent s1 = [(''r1'', ''ok'')] \<and> tasks s1 = [lease] \<and> due_at lease = Fin (- 5)
        \<and> fle (due_at lease) (Fin 0)
        \<and> active_locks s1 ''k'' = Some (granted_lock ''k'' ''c1'' False)
        \<and> run_iteration (sample_env [] []) None s1 = (Inr Continue, s2)
        \<and> active_locks s2 ''k'' = None \<and> active_requests s2 (''k'', ''c1'') = None
        \<and> tasks s2 = [])"
proof -
  have neg: "(- 5 :: real) < 0" by simp
  have free: "active_requests new_ZMQLockServer (''k'', ''c1'') = None
      \<and> active_locks new_ZMQLockServer ''k'' = None"
    by (simp add: new_server_fields)
  have fl: "py_float (sample_env [] []) ''-5'' = Some (Fin (- 5))"
    by (simp add: sample_env_fields float_fragment_samples)
  have mono: "monotone_rounding (float_round (sample_env [] []))"
    by (simp add: sample_env_fields monotone_rounding_Fin)
  show ?thesis
    using C10_negative_timeout_accepted_lease_due
            [where s = new_ZMQLockServer and k = "''k''" and c = "''c1''"
               and args = "[''k'', ''c1'', ''-5'']" and tb = "''-5''"
               and E = "sample_env [] []" and t = "- 5" and rid = "''r1''",
             OF disjI1 [OF refl] fl neg, THEN conjunct2, THEN mp, OF free]
          fl mono
    by (auto simp: new_server_fields sample_env_fields TaskQueue_add_Nil)
qed

text \<open>
  Claim C10, as stated, fails: the lock is not always released on the next iteration.
  On a new server \<open>c2\<close> acquires key \<open>k2\<close> with timeout -10 and then \<open>c1\<close> acquires
  the free key \<open>k\<close> with timeout -5. Both get \<^verbatim>\<open>ok\<close> and both leases are past due;
  the queue holds the lease of \<open>k\<close> (due at -3) before the lease of \<open>k2\<close> (due at
  -10). The next iteration, in which no message arrives, pops the lease of \<open>k2\<close>:
  \<open>k2\<close> is released and \<open>k\<close> is still held by \<open>c1\<close>.
\<close>

theorem C10_released_on_next_iteration_counterexample:
  "(let E = sample_env [] [];
        (r1, s1) = run_iteration E (Some [''r2'', [], ''acquire'', ''k2'', ''c2'', ''-10''])
                     new_ZMQLockServer;
        (r2, s2) = run_iteration E (Some [''r1'', [], ''acquire'', ''k'', ''c1'', ''-5'']) s1;
        (r3, s3) = run_iteration E None s2
    in r1 = Inr Continue \<and> active_locks s1 ''k'' = None
       \<and> active_requests s1 (''k'', ''c1'') = None
       \<and> r2 = Inr Continue \<and> sent s2 = [(''r2'', ''ok''), (''r1'', ''ok'')]
       \<and> map due_at (tasks s2) = [Fin (- 3), Fin (- 10)]
       \<and> map func (tasks s2) = [Cb_release 1 True, Cb_release 0 True]
       \<and> active_requests s2 (''k'', ''c1'') = Some 1
       \<and> r3 = Inr Continue
       \<and> active_locks s3 ''k2'' = None
       \<and> active_locks s3 ''k'' = Some (granted_lock ''k'' ''c1'' False)
       \<and> active_requests s3 (''k'', ''c1'') = Some 1
       \<and> state (request_heap s3 1) = HELD
       \<and> map func (tasks s3) = [Cb_release 1 True])"
proof -
  let ?E = "sample_env [] []"
  let ?T0 = "\<lparr>task_id = 0, due_at = Fin (- 10), func = Cb_release 0 True, called = False\<rparr>"
  let ?T1 = "\<lparr>task_id = Suc 0, due_at = Fin (- 3), func = Cb_release (Suc 0) True,
              called = False\<rparr>"
  have fl10: "py_float ?E ''-10'' = Some (Fin (- 10))"
    and fl5: "py_float ?E ''-5'' = Some (Fin (- 5))"
    by (simp_all add: sample_env_fields float_fragment_samples)
  have valid: "\<not> in_INVALID_NUMBERS (Fin x)" for x
    by (simp add: in_INVALID_NUMBERS_def INVALID_NUMBERS_def)
  define s1 where
    "s1 = snd (ZMQLockServer_acquire_request ?E ''r2'' [''k2'', ''c2'', ''-10''] new_ZMQLockServer)"
  have a1: "ZMQLockServer_acquire_request ?E ''r2'' [''k2'', ''c2'', ''-10''] new_ZMQLockServer
      = (Inr (), s1)"
    and f1: "sent s1 = [(''r2'', ''ok'')]"
      "active_requests s1 = (active_requests new_ZMQLockServer)((''k2'', ''c2'') \<mapsto> 0)"
      "active_locks s1 = (active_locks new_ZMQLockServer)
         (''k2'' \<mapsto> granted_lock ''k2'' ''c2'' False)"
      "request_heap s1 0 = \<lparr>key = ''k2'', client_id = ''c2'', routing_id = Some ''r2'',
         timeout = Some (Fin (- 10)), read_only = Some False, state = HELD,
         advise_retry_task = None, give_up_task = None, timeout_task = Some ?T0\<rparr>"
      "tasks s1 = [?T0]" "next_request s1 = Suc 0" "next_task s1 = Suc 0"
      "clock_reads s1 = Suc 0"
    using acquire_free_fields [where s = new_ZMQLockServer and k = "''k2''" and c = "''c2''"
        and args = "[''k2'', ''c2'', ''-10'']" and tb = "''-10''" and E = ?E
        and t = "Fin (- 10)" and rid = "''r2''",
        OF new_server_fields(3) new_server_fields(2) disjI1 [OF refl] fl10 valid]
    by (auto simp: s1_def new_server_fields sample_env_fields TaskQueue_add_Nil)
  have run1: "run_iteration ?E (Some [''r2'', [], ''acquire'', ''k2'', ''c2'', ''-10''])
      new_ZMQLockServer = (Inr Continue, s1)"
    by (simp add: run_iteration_acquire new_server_fields a1 and_then_Inr)
  let ?s1' = "s1\<lparr>clock_reads := Suc (clock_reads s1)\<rparr>"
  have free2: "active_requests ?s1' (''k'', ''c1'') = None" "active_locks ?s1' ''k'' = None"
    by (simp_all add: f1 new_server_fields)
  define s2 where
    "s2 = snd (ZMQLockServer_acquire_request ?E ''r1'' [''k'', ''c1'', ''-5''] ?s1')"
  have a2: "ZMQLockServer_acquire_request ?E ''r1'' [''k'', ''c1'', ''-5''] ?s1' = (Inr (), s2)"
    and f2: "sent s2 = [(''r2'', ''ok''), (''r1'', ''ok'')]"
      "active_requests s2 = (active_requests s1)((''k'', ''c1'') \<mapsto> Suc 0)"
      "active_locks s2 = (active_locks s1)(''k'' \<mapsto> granted_lock ''k'' ''c1'' False)"
      "request_heap s2 0 = request_heap s1 0"
      "state (request_heap s2 (Suc 0)) = HELD"
      "tasks s2 = [?T1, ?T0]"
    using acquire_free_fields [where s = ?s1' and k = "''k''" and c = "''c1''"
        and args = "[''k'', ''c1'', ''-5'']" and tb = "''-5''" and E = ?E
        and t = "Fin (- 5)" and rid = "''r1''",
        OF free2 disjI1 [OF refl] fl5 valid]
    by (auto simp: s2_def f1 sample_env_fields TaskQueue_add_single)
  have run2: "run_iteration ?E (Some [''r1'', [], ''acquire'', ''k'', ''c1'', ''-5'']) s1
      = (Inr Continue, s2)"
    using a2 by (simp add: run_iteration_acquire f1 and_then_Inr)
  let ?s2' = "s2\<lparr>clock_reads := Suc (clock_reads s2), tasks := butlast (tasks s2)\<rparr>"
  let ?s3 = "?s2'\<lparr>active_locks := (active_locks ?s2')(''k2'' := None),
                active_requests := (active_requests ?s2')((''k2'', ''c2'') := None)\<rparr>"
  have rel: "LockRequest_release ?E 0 True ?s2' = (Inr (), ?s3)"
    by (rule LockRequest_release_sole [where ro = False and a' = 0])
       (simp_all add: f2 f1 sample_env_fields)
  have run3: "run_iteration ?E None s2 = (Inr Continue, ?s3)"
    using rel by (simp add: run_iteration_timeout f2 Task_call_def and_then_Inr)
  show ?thesis
    unfolding Let_def run1 prod.case run2 run3
    by (simp add: f1 f2 new_server_fields)
qed

lemma release_untracked:
  assumes "active_requests s (k, c) = None"
  shows "\<exists>s'. ZMQLockServer_release_request E rid [k, c] s = (Inr (), s')
     \<and> sent s' = sent s @ [(rid, ERR_NOT_HELD)]
     \<and> active_requests s' = (active_requests s)((k, c) \<mapsto> next_request s)
     \<and> request_heap s' = (request_heap s)(next_request s := new_LockRequest k c)
     \<and> active_locks s' = active_locks s \<and> tasks s' = tasks s"
  using assms
  by (simp add: ZMQLockServer_release_request_def LockRequest_instance_def
        LockRequest_release_request_def new_LockRequest_def send_def)

text \<open>
  Claim C9 (the code departs from it). A \<^verbatim>\<open>release\<close> for an untracked slot should
  leave the table of active requests unchanged. On a new server the message
  \<^verbatim>\<open>[r1, '', release, k, c1]\<close> is answered \<^verbatim>\<open>ERR_NOT_HELD\<close>, but
  \<^verbatim>\<open>ZMQLockServer.release_request\<close> has called \<^verbatim>\<open>LockRequest.instance\<close>, which
  created a request in state \<open>INITIAL\<close> for the slot and put it into the table, where
  it stays.
\<close>

theorem C9_release_untracked_slot_inserts_request:
  "(let E = sample_env [] [];
        (r1, s1) = run_iteration E (Some [''r1'', [], ''release'', ''k'', ''c1''])
                     new_ZMQLockServer
    in active_requests new_ZMQLockServer (''k'', ''c1'') = None
       \<and> r1 = Inr Continue \<and> sent s1 = [(''r1'', ERR_NOT_HELD)]
       \<and> active_requests s1 (''k'', ''c1'') = Some 0
       \<and> state (request_heap s1 0) = INITIAL
       \<and> active_requests s1 \<noteq> active_requests new_ZMQLockServer)"
proof -
  from release_untracked [where s = new_ZMQLockServer and k = "''k''" and c = "''c1''"
        and E = "sample_env [] []" and rid = "''r1''", OF new_server_fields(3)]
  obtain s' where
      r: "ZMQLockServer_release_request (sample_env [] []) ''r1'' [''k'', ''c1'']
            new_ZMQLockServer = (Inr (), s')"
      and f: "sent s' = sent new_ZMQLockServer @ [(''r1'', ERR_NOT_HELD)]"
        "active_requests s' = (active_requests new_ZMQLockServer)
            ((''k'', ''c1'') \<mapsto> next_request new_ZMQLockServer)"
        "request_heap s' = (request_heap new_ZMQLockServer)
            (next_request new_ZMQLockServer := new_LockRequest ''k'' ''c1'')"
    by blast
  have run: "run_iteration (sample_env [] []) (Some [''r1'', [], ''release'', ''k'', ''c1''])
      new_ZMQLockServer = (Inr Continue, s')"
    by (simp add: run_iteration_release new_server_fields r and_then_Inr)
  have ne: "active_requests s' \<noteq> active_requests new_ZMQLockServer"
  proof
    assume "active_requests s' = active_requests new_ZMQLockServer"
    then have "active_requests s' (''k'', ''c1'') = None" by (simp add: new_server_fields)
    then show False by (simp add: f)
  qed
  show ?thesis
    using ne by (simp add: Let_def run f new_server_fields new_LockRequest_def)
qed

text \<open>
  The two infinities are rejected: they are equal to members of \<^verbatim>\<open>INVALID_NUMBERS\<close>,
  so the reply is \<^verbatim>\<open>ERR_TIMEOUT_INVALID\<close> and nothing else changes.
\<close>

lemma infinite_timeout_rejected:
  assumes "length args = 3 \<or> length args = 4"
    and "py_float E (args ! 2) = Some PInf \<or> py_float E (args ! 2) = Some NInf"
  shows "ZMQLockServer_acquire_request E rid args s
           = (Inr (), s\<lparr>sent := sent s @ [(rid, ERR_TIMEOUT_INVALID)]\<rparr>)"
  using assms
  by (auto simp: ZMQLockServer_acquire_request_def in_INVALID_NUMBERS_def INVALID_NUMBERS_def
        send_def)

text \<open>
  Claim C4 (the code departs from it). A timeout that parses to NaN should be answered
  \<^verbatim>\<open>ERR_TIMEOUT_INVALID\<close> and change nothing. The test \<^verbatim>\<open>timeout in INVALID_NUMBERS\<close>
  never holds for NaN, which is equal to no member of the set; on a new server the
  message \<^verbatim>\<open>[r1, '', acquire, k, c1, nan]\<close> is answered \<^verbatim>\<open>ok\<close>, the request and the
  lock are created, \<open>c1\<close> is the writer, and the lease task is due at NaN.
\<close>

theorem C4_nan_timeout_accepted:
  "(let E = sample_env [] [];
        (r1, s1) = run_iteration E (Some [''r1'', [], ''acquire'', ''k'', ''c1'', ''nan''])
                     new_ZMQLockServer
    in py_float E ''nan'' = Some NaN
       \<and> r1 = Inr Continue \<and> sent s1 = [(''r1'', ''ok'')]
       \<and> active_requests new_ZMQLockServer (''k'', ''c1'') = None
       \<and> active_requests s1 (''k'', ''c1'') = Some 0
       \<and> state (request_heap s1 0) = HELD
       \<and> active_locks new_ZMQLockServer ''k'' = None
       \<and> map_option writer (active_locks s1 ''k'') = Some (Some ''c1'')
       \<and> map due_at (tasks s1) = [NaN])"
proof -
  have fl: "py_float (sample_env [] []) ''nan'' = Some NaN"
    by (simp add: sample_env_fields float_fragment_samples)
  have valid: "\<not> in_INVALID_NUMBERS NaN"
    by (simp add: in_INVALID_NUMBERS_def INVALID_NUMBERS_def)
  from acquire_free_fields [where s = new_ZMQLockServer and k = "''k''" and c = "''c1''"
        and args = "[''k'', ''c1'', ''nan'']" and tb = "''nan''" and E = "sample_env [] []"
        and t = NaN and rid = "''r1''",
        OF new_server_fields(3) new_server_fields(2) _ fl valid]
  obtain s' where
      r: "ZMQLockServer_acquire_request (sample_env [] []) ''r1'' [''k'', ''c1'', ''nan'']
            new_ZMQLockServer = (Inr (), s')"
      and f: "sent s' = sent new_ZMQLockServer @ [(''r1'', ''ok'')]"
        "active_requests s' = (active_requests new_ZMQLockServer)
            ((''k'', ''c1'') \<mapsto> next_request new_ZMQLockServer)"
        "active_locks s' = (active_locks new_ZMQLockServer)
            (''k'' \<mapsto> granted_lock ''k'' ''c1''
               ([''k'', ''c1'', ''nan''] = [''k'', ''c1'', ''nan'', ''read_only'']))"
        "state (request_heap s' (next_request new_ZMQLockServer)) = HELD"
        "tasks s' = TaskQueue_add (tasks new_ZMQLockServer)
          \<lparr>task_id = next_task new_ZMQLockServer,
           due_at = fadd (float_round (sample_env [] []))
                      (Fin (monotonic_clock (sample_env [] [])
                         (clock_reads new_ZMQLockServer))) NaN,
           func = Cb_release (next_request new_ZMQLockServer) True, called = False\<rparr>"
    by force
  have run: "run_iteration (sample_env [] []) (Some [''r1'', [], ''acquire'', ''k'', ''c1'', ''nan''])
      new_ZMQLockServer = (Inr Continue, s')"
    by (simp add: run_iteration_acquire new_server_fields r and_then_Inr)
  show ?thesis
    using fl f by (simp add: Let_def run new_server_fields TaskQueue_add_Nil granted_lock_def
          new_Lock_def)
qed

lemma reentry_writer_read_only:
  assumes st: "state (request_heap s a) = HELD"
    and k: "key (request_heap s a) = k" and c: "client_id (request_heap s a) = c"
    and l: "active_locks s k = Some l" and valid: "\<not> invalid l"
    and w: "writer l = Some c"
    and nw: "c \<notin> waiting_readers l" "c \<notin> waiting_writers l"
  shows "LockRequest_acquire_request E a rid t True s =
     (Inl AssertionError,
      s\<lparr>active_locks := (active_locks s)
           (k \<mapsto> l\<lparr>waiting_readers := insert c (waiting_readers l)\<rparr>)\<rparr>)"
proof -
  have "Lock_acquire c True l = (Inr False, l\<lparr>waiting_readers := insert c (waiting_readers l)\<rparr>)"
    using valid w nw by (simp add: Lock_acquire_def Lock_acquire_body_def Lock_check_cleanup_def)
  then have "call_Lock_acquire k c True s =
     (Inr False, s\<lparr>active_locks := (active_locks s)
           (k \<mapsto> l\<lparr>waiting_readers := insert c (waiting_readers l)\<rparr>)\<rparr>)"
    using l valid by (simp add: call_Lock_acquire_def Lock_instance_def store_lock_def)
  then show ?thesis
    using st k c by (simp add: LockRequest_acquire_request_def reentry_acquisition_def Let_def)
qed

lemma first_acquire_gives_held_server:
  "run_iteration (sample_env [] []) (Some [''r1'', [], ''acquire'', ''k'', ''c1'', ''10''])
     new_ZMQLockServer = (Inr Continue, held_server)"
proof -
  have fl: "py_float (sample_env [] []) ''10'' = Some (Fin 10)"
    by (simp add: sample_env_fields float_fragment_samples)
  have valid: "\<not> in_INVALID_NUMBERS (Fin 10)"
    by (simp add: in_INVALID_NUMBERS_def INVALID_NUMBERS_def)
  have "ZMQLockServer_acquire_request (sample_env [] []) ''r1'' [''k'', ''c1'', ''10'']
          new_ZMQLockServer = (Inr (), held_server)"
    unfolding acquire_free [where s = new_ZMQLockServer and k = "''k''" and c = "''c1''"
        and args = "[''k'', ''c1'', ''10'']" and tb = "''10''" and E = "sample_env [] []"
        and t = "Fin 10" and rid = "''r1''",
        OF new_server_fields(3) new_server_fields(2) _ fl valid, simplified]
    by (simp add: set_state_def set_req_def schedule_timeout_release_def new_Task_def
        monotonic_def send_def new_LockRequest_def new_ZMQLockServer_def held_server_def
        TaskQueue_add_Nil sample_env_def)
  then show ?thesis
    by (simp add: run_iteration_acquire new_server_fields and_then_Inr)
qed

text \<open>
  Claim C3 (the code departs from it). An \<^verbatim>\<open>acquire\<close> for a slot in state \<open>HELD\<close>
  should be answered \<^verbatim>\<open>ok\<close> or \<^verbatim>\<open>ERR_INVALID_REENTRY\<close> without aborting the loop.
  Here \<open>c1\<close> takes the lock of key \<open>k\<close> as writer on a new server and then asks
  again with \<^verbatim>\<open>read_only\<close>. \<^verbatim>\<open>Lock.acquire\<close> puts the writer \<open>c1\<close> among the waiting
  readers and returns \<^verbatim>\<open>False\<close>, the \<^verbatim>\<open>assert\<close> of the handler fails, and the
  \<^verbatim>\<open>AssertionError\<close> leaves the iteration (and so \<^verbatim>\<open>run\<close>) with no reply sent.
\<close>

theorem C3_writer_reentry_read_only_aborts:
  "(let E = sample_env [] [];
        (r1, s1) = run_iteration E (Some [''r1'', [], ''acquire'', ''k'', ''c1'', ''10''])
                     new_ZMQLockServer;
        (r2, s2) = run_iteration E
                     (Some [''r1'', [], ''acquire'', ''k'', ''c1'', ''10'', ''read_only'']) s1
    in r1 = Inr Continue \<and> sent s1 = [(''r1'', ''ok'')]
       \<and> active_requests s1 (''k'', ''c1'') = Some 0 \<and> state (request_heap s1 0) = HELD
       \<and> map_option writer (active_locks s1 ''k'') = Some (Some ''c1'')
       \<and> r2 = Inl AssertionError \<and> sent s2 = [(''r1'', ''ok'')]
       \<and> map_option waiting_readers (active_locks s2 ''k'') = Some {''c1''})"
proof -
  let ?s = "held_server\<lparr>clock_reads := Suc (clock_reads held_server)\<rparr>"
  have fl: "py_float (sample_env [] []) ''10'' = Some (Fin 10)"
    by (simp add: sample_env_fields float_fragment_samples)
  have valid: "\<not> in_INVALID_NUMBERS (Fin 10)"
    by (simp add: in_INVALID_NUMBERS_def INVALID_NUMBERS_def)
  have inst: "LockRequest_instance ''k'' ''c1'' ?s = (0, ?s)"
    by (simp add: LockRequest_instance_def held_server_def)
  have re: "LockRequest_acquire_request (sample_env [] []) 0 ''r1'' (Fin 10) True ?s =
     (Inl AssertionError,
      ?s\<lparr>active_locks := (active_locks ?s)
           (''k'' \<mapsto> (granted_lock ''k'' ''c1'' False)
              \<lparr>waiting_readers := insert ''c1'' (waiting_readers (granted_lock ''k'' ''c1'' False))\<rparr>)\<rparr>)"
    by (rule reentry_writer_read_only)
       (simp_all add: held_server_def granted_lock_def new_Lock_def)
  have "ZMQLockServer_acquire_request (sample_env [] []) ''r1''
          [''k'', ''c1'', ''10'', ''read_only''] ?s =
     (Inl AssertionError,
      ?s\<lparr>active_locks := (active_locks ?s)
           (''k'' \<mapsto> (granted_lock ''k'' ''c1'' False)
              \<lparr>waiting_readers := insert ''c1'' (waiting_readers (granted_lock ''k'' ''c1'' False))\<rparr>)\<rparr>)"
    using ZMQLockServer_acquire_request_valid [where args = "[''k'', ''c1'', ''10'', ''read_only'']"
        and k = "''k''" and c = "''c1''" and tb = "''10''" and E = "sample_env [] []"
        and t = "Fin 10" and rid = "''r1''" and s = ?s, OF _ fl valid]
    by (simp add: inst re)
  moreover have "tasks held_server \<noteq> []" by (simp add: held_server_def)
  ultimately have run2: "run_iteration (sample_env [] [])
       (Some [''r1'', [], ''acquire'', ''k'', ''c1'', ''10'', ''read_only'']) held_server =
     (Inl AssertionError,
      ?s\<lparr>active_locks := (active_locks ?s)
           (''k'' \<mapsto> (granted_lock ''k'' ''c1'' False)
              \<lparr>waiting_readers := insert ''c1'' (waiting_readers (granted_lock ''k'' ''c1'' False))\<rparr>)\<rparr>)"
    by (simp add: run_iteration_acquire and_then_Inl)
  show ?thesis
    unfolding Let_def first_acquire_gives_held_server prod.case run2
    by (simp add: held_server_def granted_lock_def new_Lock_def)
qed


lemma call_Lock_acquire_frame:
  "snd (call_Lock_acquire k c ro s) =
     s\<lparr>active_locks := active_locks (snd (call_Lock_acquire k c ro s))\<rparr>"
  by (simp add: call_Lock_acquire_def Lock_instance_def store_lock_def
        split: option.splits prod.splits)

text \<open>
  A replacing lease is due later than the lease it replaces: the test has found the float
  sum of the clock's reading and the timeout greater than the old due time, and the new
  task takes a later reading of the clock, which a monotone rounding cannot turn into
  a smaller sum.
\<close>

lemma replacing_lease_due_later:
  assumes "fgt (fadd rnd (Fin now) t) due" and "monotone_rounding rnd" and "now \<le> now'"
  shows "flt due (fadd rnd (Fin now') t)"
proof -
  from assms(1) have lt: "flt due (fadd rnd (Fin now) t)" by (simp add: fgt_def)
  then have "fadd rnd (Fin now) t \<noteq> NaN" by (cases due) auto
  with assms(2,3) have "fle (fadd rnd (Fin now) t) (fadd rnd (Fin now') t)"
    by (rule fadd_mono)
  with lt show ?thesis by (rule flt_fle_trans)
qed

text \<open>
  Claim C7. The request is \<open>HELD\<close>, its lease task is pending in the queue (of distinct
  task objects), and \<^verbatim>\<open>Lock.acquire\<close> succeeds for the reentry. Then the handler
  replies \<^verbatim>\<open>ok\<close>, the state stays \<open>HELD\<close>, and: if the float sum of the clock's
  reading and the new timeout is strictly greater (as floats) than the lease's due
  time, the lease is removed from the queue and a new lease task, due at the float sum
  of the clock's next reading and the timeout, is queued and kept by the request;
  otherwise the queue and the request's lease are exactly as before. The lease is never
  shortened: when the clock does not go back between its two readings (and the rounding
  is monotone), the new lease is due strictly later than the one it replaces.
\<close>

theorem C7_reentry_extends_lease_only:
  assumes st: "state (request_heap s a) = HELD"
    and lease: "timeout_task (request_heap s a) = Some lease"
    and pending: "task_id lease \<in> set (map task_id (tasks s))"
    and ids: "distinct (map task_id (tasks s))"
    and ok: "fst (call_Lock_acquire (key (request_heap s a)) (client_id (request_heap s a)) ro s)
               = Inr True"
  shows "(case LockRequest_acquire_request E a rid t ro s of (res, s') \<Rightarrow>
      res = Inr () \<and> sent s' = sent s @ [(rid, ''ok'')] \<and> state (request_heap s' a) = HELD
      \<and> (if fgt (fadd (float_round E) (Fin (monotonic_clock E (clock_reads s))) t)
               (due_at lease)
         then tasks s' =
                TaskQueue_add (filter (\<lambda>x. task_id x \<noteq> task_id lease) (tasks s))
                  \<lparr>task_id = next_task s,
                   due_at = fadd (float_round E)
                              (Fin (monotonic_clock E (Suc (clock_reads s)))) t,
                   func = Cb_release a True, called = False\<rparr>
              \<and> timeout_task (request_heap s' a) =
                  Some \<lparr>task_id = next_task s,
                        due_at = fadd (float_round E)
                                   (Fin (monotonic_clock E (Suc (clock_reads s)))) t,
                        func = Cb_release a True, called = False\<rparr>
              \<and> (monotone_rounding (float_round E)
                   \<and> monotonic_clock E (clock_reads s) \<le> monotonic_clock E (Suc (clock_reads s))
                 \<longrightarrow> flt (due_at lease)
                       (fadd (float_round E)
                          (Fin (monotonic_clock E (Suc (clock_reads s)))) t))
         else tasks s' = tasks s \<and> timeout_task (request_heap s' a) = Some lease))"
proof -
  let ?k = "key (request_heap s a)" and ?c = "client_id (request_heap s a)"
  obtain L where call: "call_Lock_acquire ?k ?c ro s = (Inr True, s\<lparr>active_locks := L\<rparr>)"
    using ok call_Lock_acquire_frame [of ?k ?c ro s]
    by (metis prod.collapse)
  have cancel: "TaskQueue_cancel (tasks s) lease =
      Inr (filter (\<lambda>x. task_id x \<noteq> task_id lease) (tasks s))"
    using pending ids by (simp add: TaskQueue_cancel_def list_remove_filter)
  have later: "flt (due_at lease)
       (fadd (float_round E) (Fin (monotonic_clock E (Suc (clock_reads s)))) t)"
    if "fgt (fadd (float_round E) (Fin (monotonic_clock E (clock_reads s))) t) (due_at lease)"
      and "monotone_rounding (float_round E)"
      and "monotonic_clock E (clock_reads s) \<le> monotonic_clock E (Suc (clock_reads s))"
    using that by (rule replacing_lease_due_later)
  show ?thesis
    using st lease later
    by (simp add: LockRequest_acquire_request_def reentry_acquisition_def Let_def call
          send_def monotonic_def cancel_timeout_release_def cancel_task_def cancel
          and_then_def schedule_timeout_release_def new_Task_def set_req_def)
qed

lemma held_server_reentry:
  "fst (call_Lock_acquire (key (request_heap held_server 0))
          (client_id (request_heap held_server 0)) False held_server) = Inr True"
  by (simp add: held_server_def call_Lock_acquire_def Lock_instance_def granted_lock_def
        new_Lock_def Lock_acquire_def Lock_acquire_body_def)

theorem C7_reentry_extends_lease_only_witness:
  "state (request_heap held_server 0) = HELD
   \<and> timeout_task (request_heap held_server 0)
       = Some \<lparr>task_id = 0, due_at = Fin 10, func = Cb_release 0 True, called = False\<rparr>
   \<and> map task_id (tasks held_server) = [0]
   \<and> monotonic_clock (sample_env [] []) (clock_reads held_server) = 1
   \<and> monotonic_clock (sample_env [] []) (Suc (clock_reads held_server)) = 2
   \<and> monotone_rounding (float_round (sample_env [] []))
   \<and> tasks (snd (LockRequest_acquire_request (sample_env [] []) 0 ''r1'' (Fin 9) False held_server))
       = tasks held_server
   \<and> timeout_task (request_heap
        (snd (LockRequest_acquire_request (sample_env [] []) 0 ''r1'' (Fin 9) False held_server)) 0)
       = Some \<lparr>task_id = 0, due_at = Fin 10, func = Cb_release 0 True, called = False\<rparr>
   \<and> map due_at (tasks (snd (LockRequest_acquire_request (sample_env [] []) 0 ''r1'' (Fin 10)
        False held_server))) = [Fin 12]
   \<and> map task_id (tasks (snd (LockRequest_acquire_request (sample_env [] []) 0 ''r1'' (Fin 10)
        False held_server))) = [1]
   \<and> flt (Fin 10) (Fin 12)"
proof -
  have st: "state (request_heap held_server 0) = HELD"
    and lease: "timeout_task (request_heap held_server 0)
       = Some \<lparr>task_id = 0, due_at = Fin 10, func = Cb_release 0 True, called = False\<rparr>"
    and tk: "tasks held_server
       = [\<lparr>task_id = 0, due_at = Fin 10, func = Cb_release 0 True, called = False\<rparr>]"
    and cr: "clock_reads held_server = 1" and nt: "next_task held_server = 1"
    by (simp_all add: held_server_def)
  have pending: "task_id \<lparr>task_id = 0, due_at = Fin 10, func = Cb_release 0 True, called = False\<rparr>
      \<in> set (map task_id (tasks held_server))"
    and ids: "distinct (map task_id (tasks held_server))"
    by (simp_all add: tk)
  show ?thesis
    using C7_reentry_extends_lease_only
            [where E = "sample_env [] []" and rid = "''r1''" and t = "Fin 9",
             OF st lease pending ids held_server_reentry]
          C7_reentry_extends_lease_only
            [where E = "sample_env [] []" and rid = "''r1''" and t = "Fin 10",
             OF st lease pending ids held_server_reentry]
    by (simp add: st lease tk cr nt sample_env_fields fgt_def TaskQueue_add_Nil
          monotone_rounding_Fin split: prod.splits)
qed

end
